theory Spec2Isabelle
  imports Complex_Main "HOL-Library.Word"
begin

unbundle bit_operations_syntax

section \<open>JavaScript values shared by the helpers\<close>

text \<open>
  The library is \<^verbatim>\<open>lib/index.js\<close>. A JavaScript string is a sequence of 16-bit
  code units; \<open>js\<close> turns an Isabelle literal into one, a code unit per character.
\<close>

type_synonym jschar = "16 word"
type_synonym jsstring = "jschar list"

definition js :: "string \<Rightarrow> jsstring" where
  "js s = map of_char s"

text \<open>
  Exceptions and rejected promises are values. \<open>SyntaxError\<close> and \<open>TypeError\<close> are the
  ECMAScript errors (their engine-specific messages are left out), \<open>Error\<close> carries the
  message the library itself builds, \<open>DOMException\<close> carries the exception's name, and
  \<open>HostError\<close> is an error handed in by a collaborator (the file stream, the webview).
\<close>

datatype js_error =
    SyntaxError
  | TypeError
  | Error jsstring
  | DOMException jsstring
  | HostError jsstring

subsection \<open>Numbers\<close>

text \<open>
  A JavaScript number is an IEEE double: \<open>Num q\<close> is the double whose value is the
  rational \<open>q\<close>, beside the two infinities and \<open>NaN\<close>. The sign of a zero is not kept.
  Every operation gives the double nearest to the exact result, a tie going to the even
  significand, and an infinity beyond the largest double; \<open>round_double\<close> is that
  rounding.
\<close>

datatype jsnumber = Num rat | PosInfinity | NegInfinity | NaN

text \<open>\<open>ilog2 a\<close> is the \<open>n\<close> with \<open>2 ^ n \<le> a < 2 ^ (n + 1)\<close>, for \<open>1 \<le> a\<close>.\<close>

function ilog2 :: "rat \<Rightarrow> nat" where
  "ilog2 a = (if a < 2 then 0 else Suc (ilog2 (a / 2)))"
  by pat_completeness auto
termination
proof (relation "measure (\<lambda>a. nat \<lfloor>a\<rfloor>)", goal_cases)
  case 1
  then show ?case by simp
next
  case (2 a)
  have "of_int \<lfloor>a / 2\<rfloor> \<le> a / 2" "a < of_int \<lfloor>a\<rfloor> + 1"
    by linarith+
  with 2 have "(of_int \<lfloor>a / 2\<rfloor> :: rat) < of_int \<lfloor>a\<rfloor>"
    by linarith
  then have "\<lfloor>a / 2\<rfloor> < \<lfloor>a\<rfloor>"
    by simp
  moreover have "0 < \<lfloor>a\<rfloor>"
    using 2 by (simp add: floor_less_iff not_less)
  ultimately show ?case by simp
qed

declare ilog2.simps [simp del]

text \<open>The binary exponent of a positive number: \<open>2 powi e \<le> a < 2 powi (e + 1)\<close>.\<close>

definition exponent_of :: "rat \<Rightarrow> int" where
  "exponent_of a =
     (if 1 \<le> a then int (ilog2 a)
      else if 2 ^ ilog2 (1 / a) = 1 / a then - int (ilog2 (1 / a))
      else - int (ilog2 (1 / a)) - 1)"

definition round_half_even :: "rat \<Rightarrow> int" where
  "round_half_even q =
     (let f = \<lfloor>q\<rfloor>; r = q - of_int f
      in if r < 1 / 2 then f else if 1 / 2 < r then f + 1 else if even f then f else f + 1)"

text \<open>
  A double has a significand of 53 bits, so the doubles around \<open>a\<close> are the multiples
  of \<open>2 powi k\<close> with \<open>k\<close> 52 below the exponent of \<open>a\<close>, and never below \<open>-1074\<close>,
  the exponent of the smallest double.
\<close>

definition round_double :: "rat \<Rightarrow> jsnumber" where
  "round_double x =
     (if x = 0 then Num 0
      else (let a = \<bar>x\<bar>;
                k = max (exponent_of a - 52) (- 1074);
                r = of_int (round_half_even (a / 2 powi k)) * 2 powi k
            in if 2 ^ 1024 \<le> r then (if 0 < x then PosInfinity else NegInfinity)
               else Num (if 0 < x then r else - r)))"

text \<open>
  \<^verbatim>\<open>Number.prototype.toString\<close>. A positive number is printed from the integers
  \<open>s\<close>, \<open>k\<close> and \<open>n\<close> of ECMAScript: \<open>s\<close> has \<open>k\<close> decimal digits, \<open>s * 10 powi (n - k)\<close>
  reads back as the number, and \<open>k\<close> is as small as possible. Where several \<open>s\<close> qualify,
  ECMAScript leaves the choice open and recommends the one nearest to the number, which
  is the choice here. Seventeen digits always suffice.
\<close>

definition digit :: "nat \<Rightarrow> jschar" where
  "digit d = of_nat (48 + d)"

fun decimal :: "nat \<Rightarrow> jsstring" where
  "decimal n = (if n < 10 then [digit n] else decimal (n div 10) @ [digit (n mod 10)])"

function ilog10 :: "rat \<Rightarrow> nat" where
  "ilog10 a = (if a < 10 then 0 else Suc (ilog10 (a / 10)))"
  by pat_completeness auto
termination
proof (relation "measure (\<lambda>a. nat \<lfloor>a\<rfloor>)", goal_cases)
  case 1
  then show ?case by simp
next
  case (2 a)
  have "of_int \<lfloor>a / 10\<rfloor> \<le> a / 10" "a < of_int \<lfloor>a\<rfloor> + 1"
    by linarith+
  with 2 have "(of_int \<lfloor>a / 10\<rfloor> :: rat) < of_int \<lfloor>a\<rfloor>"
    by linarith
  then have "\<lfloor>a / 10\<rfloor> < \<lfloor>a\<rfloor>"
    by simp
  moreover have "0 < \<lfloor>a\<rfloor>"
    using 2 by (simp add: floor_less_iff not_less)
  ultimately show ?case by simp
qed

declare ilog10.simps [simp del]

text \<open>The decimal exponent of a positive number: \<open>10 powi d \<le> a < 10 powi (d + 1)\<close>.\<close>

definition decimal_exponent :: "rat \<Rightarrow> int" where
  "decimal_exponent a =
     (if 1 \<le> a then int (ilog10 a)
      else if 10 ^ ilog10 (1 / a) = 1 / a then - int (ilog10 (1 / a))
      else - int (ilog10 (1 / a)) - 1)"

text \<open>
  The \<open>s\<close> of \<open>k\<close> digits for the number \<open>x\<close> with \<open>10 powi (n - 1) \<le> x < 10 powi n\<close>, when
  there is one: of the two integers around \<open>x / 10 powi (n - k)\<close>, one that reads back as
  \<open>x\<close>, and the nearer one when both do.
\<close>

definition digits_candidate :: "rat \<Rightarrow> int \<Rightarrow> nat \<Rightarrow> int option" where
  "digits_candidate x n k =
     (let q = x / 10 powi (n - int k);
          lo = \<lfloor>q\<rfloor>;
          hi = lo + 1;
          ok_lo = (round_double (of_int lo * 10 powi (n - int k)) = Num x);
          ok_hi = (hi < 10 ^ k \<and> round_double (of_int hi * 10 powi (n - int k)) = Num x)
      in if ok_lo \<and> ok_hi
         then Some (if q - of_int lo < of_int hi - q then lo
                    else if of_int hi - q < q - of_int lo then hi
                    else if even lo then lo else hi)
         else if ok_lo then Some lo
         else if ok_hi then Some hi
         else None)"

fun first_digits :: "rat \<Rightarrow> int \<Rightarrow> nat list \<Rightarrow> (int \<times> nat) option" where
  "first_digits x n [] = None"
| "first_digits x n (k # ks) =
     (case digits_candidate x n k of Some s \<Rightarrow> Some (s, k) | None \<Rightarrow> first_digits x n ks)"

text \<open>
  A number just below a power of ten may read back from that power: the double of
  \<open>1e23\<close> is below \<open>10 ^ 23\<close> and is printed as \<open>1e+23\<close>.
\<close>

definition shortest_digits :: "rat \<Rightarrow> int \<times> nat \<times> int" where
  "shortest_digits x =
     (let n = decimal_exponent x + 1
      in if round_double (10 powi n) = Num x then (1, 1, n + 1)
         else (case first_digits x n [1 ..< 18] of
                 Some (s, k) \<Rightarrow> (s, k, n)
               | None \<Rightarrow> (\<lfloor>x / 10 powi (n - 17)\<rfloor>, 17, n)))"

definition number_text :: "int \<Rightarrow> nat \<Rightarrow> int \<Rightarrow> jsstring" where
  "number_text s k n =
     (let ds = decimal (nat s)
      in if int k \<le> n \<and> n \<le> 21 then ds @ replicate (nat (n - int k)) 0x30
         else if 0 < n \<and> n \<le> 21 then take (nat n) ds @ [0x2E] @ drop (nat n) ds
         else if - 6 < n \<and> n \<le> 0 then [0x30, 0x2E] @ replicate (nat (- n)) 0x30 @ ds
         else (if k = 1 then ds else take 1 ds @ [0x2E] @ drop 1 ds)
              @ [0x65] @ (if n - 1 < 0 then [0x2D] else [0x2B]) @ decimal (nat \<bar>n - 1\<bar>))"

definition Number_toString :: "jsnumber \<Rightarrow> jsstring" where
  "Number_toString v =
     (case v of
        NaN \<Rightarrow> js ''NaN''
      | PosInfinity \<Rightarrow> js ''Infinity''
      | NegInfinity \<Rightarrow> js ''-Infinity''
      | Num x \<Rightarrow>
          if x = 0 then js ''0''
          else (if x < 0 then [0x2D] else [])
               @ (let (s, k, n) = shortest_digits \<bar>x\<bar> in number_text s k n))"

section \<open>addClassList and removeClassList\<close>

text \<open>
  \<^verbatim>\<open>
  let addClassList = (selector, classList = []) => {
      Array.from(document.querySelectorAll(selector)).forEach((element) => {
          element.classList.add(...classList)
      })
  }
  let removeClassList = (selector, classList = []) => {
      Array.from(document.querySelectorAll(selector)).forEach((element) => {
          element.classList.remove(...classList)
      })
  }
  \<close>
  An element is known by its \<open>class\<close> attribute, which is absent or a string. The
  \<open>classList\<close> of an element is the \<open>DOMTokenList\<close> of the DOM Standard: its token
  set is the attribute split on ASCII whitespace, without repeats, and \<open>add\<close> and
  \<open>remove\<close> validate the tokens, change the token set and then run the update steps,
  which write the serialised token set back into the attribute.
\<close>

record element =
  className :: "jsstring option"

definition ascii_whitespace :: "jschar \<Rightarrow> bool" where
  "ascii_whitespace c \<longleftrightarrow> c = 0x09 \<or> c = 0x0A \<or> c = 0x0C \<or> c = 0x0D \<or> c = 0x20"

text \<open>Split on ASCII whitespace; the first argument is the token being read.\<close>

fun split_on_ascii_whitespace :: "jsstring \<Rightarrow> jsstring \<Rightarrow> jsstring list" where
  "split_on_ascii_whitespace token [] = (if token = [] then [] else [token])"
| "split_on_ascii_whitespace token (c # cs) =
     (if ascii_whitespace c
      then (if token = [] then split_on_ascii_whitespace [] cs
            else token # split_on_ascii_whitespace [] cs)
      else split_on_ascii_whitespace (token @ [c]) cs)"

text \<open>Appending to an ordered set leaves the set alone when the item is in it.\<close>

definition set_append :: "'a list \<Rightarrow> 'a \<Rightarrow> 'a list" where
  "set_append items item = (if item \<in> set items then items else items @ [item])"

definition ordered_set_parser :: "jsstring \<Rightarrow> jsstring list" where
  "ordered_set_parser input =
     fold (\<lambda>token tokens. set_append tokens token) (split_on_ascii_whitespace [] input) []"

fun ordered_set_serializer :: "jsstring list \<Rightarrow> jsstring" where
  "ordered_set_serializer [] = []"
| "ordered_set_serializer [token] = token"
| "ordered_set_serializer (token # tokens) = token @ [0x20] @ ordered_set_serializer tokens"

definition token_set :: "element \<Rightarrow> jsstring list" where
  "token_set el = (case className el of None \<Rightarrow> [] | Some value \<Rightarrow> ordered_set_parser value)"

text \<open>
  The validation of \<open>add\<close> and \<open>remove\<close>: the first token that is empty throws a
  \<open>SyntaxError\<close>, the first that holds ASCII whitespace an \<open>InvalidCharacterError\<close>.
\<close>

fun validate_tokens :: "jsstring list \<Rightarrow> js_error option" where
  "validate_tokens [] = None"
| "validate_tokens (token # tokens) =
     (if token = [] then Some (DOMException (js ''SyntaxError''))
      else if \<exists>c \<in> set token. ascii_whitespace c
      then Some (DOMException (js ''InvalidCharacterError''))
      else validate_tokens tokens)"

text \<open>
  The update steps: nothing happens when the element has no \<open>class\<close> attribute and the
  token set is empty; otherwise the attribute is set to the serialised token set.
\<close>

definition update_steps :: "element \<Rightarrow> jsstring list \<Rightarrow> element" where
  "update_steps el tokens =
     (if className el = None \<and> tokens = [] then el
      else el\<lparr>className := Some (ordered_set_serializer tokens)\<rparr>)"

definition classList_add :: "element \<Rightarrow> jsstring list \<Rightarrow> js_error + element" where
  "classList_add el tokens =
     (case validate_tokens tokens of
        Some e \<Rightarrow> Inl e
      | None \<Rightarrow> Inr (update_steps el (fold (\<lambda>token ts. set_append ts token) tokens (token_set el))))"

definition classList_remove :: "element \<Rightarrow> jsstring list \<Rightarrow> js_error + element" where
  "classList_remove el tokens =
     (case validate_tokens tokens of
        Some e \<Rightarrow> Inl e
      | None \<Rightarrow> Inr (update_steps el (fold (\<lambda>token ts. removeAll token ts) tokens (token_set el))))"

text \<open>
  What \<open>add\<close> and \<open>remove\<close> do to an element when they are given no token: the update
  steps run on the element's own token set. A token of a token set is never empty and
  holds no ASCII whitespace.
\<close>

definition refresh_class :: "element \<Rightarrow> element" where
  "refresh_class el = update_steps el (token_set el)"

definition valid_token :: "jsstring \<Rightarrow> bool" where
  "valid_token t \<longleftrightarrow> t \<noteq> [] \<and> (\<forall>c \<in> set t. \<not> ascii_whitespace c)"

text \<open>
  The document is the list of its elements in tree order. \<open>querySelectorAll\<close> is the
  browser's: it is a parameter that gives the positions of the matched elements, or
  throws for a selector it cannot parse. \<open>forEach\<close> visits the matched elements in
  order and stops at the first exception, which leaves the function with the elements
  changed so far; a position outside the document is passed over.
\<close>

type_synonym html_document = "element list"
type_synonym selector_engine = "html_document \<Rightarrow> jsstring \<Rightarrow> js_error + nat list"

fun forEach_element ::
  "(element \<Rightarrow> js_error + element) \<Rightarrow> nat list \<Rightarrow> html_document \<Rightarrow> js_error option \<times> html_document" where
  "forEach_element f [] doc = (None, doc)"
| "forEach_element f (i # matched) doc =
     (if i < length doc
      then (case f (doc ! i) of
              Inl e \<Rightarrow> (Some e, doc)
            | Inr el \<Rightarrow> forEach_element f matched (doc[i := el]))
      else forEach_element f matched doc)"

definition addClassList ::
  "selector_engine \<Rightarrow> html_document \<Rightarrow> jsstring \<Rightarrow> jsstring list option \<Rightarrow> js_error option \<times> html_document" where
  "addClassList querySelectorAll doc selector classListArg =
     (let classList = (case classListArg of None \<Rightarrow> [] | Some l \<Rightarrow> l)
      in case querySelectorAll doc selector of
           Inl e \<Rightarrow> (Some e, doc)
         | Inr matched \<Rightarrow> forEach_element (\<lambda>el. classList_add el classList) matched doc)"

definition removeClassList ::
  "selector_engine \<Rightarrow> html_document \<Rightarrow> jsstring \<Rightarrow> jsstring list option \<Rightarrow> js_error option \<times> html_document" where
  "removeClassList querySelectorAll doc selector classListArg =
     (let classList = (case classListArg of None \<Rightarrow> [] | Some l \<Rightarrow> l)
      in case querySelectorAll doc selector of
           Inl e \<Rightarrow> (Some e, doc)
         | Inr matched \<Rightarrow> forEach_element (\<lambda>el. classList_remove el classList) matched doc)"

text \<open>A selector engine for concrete runs: every element matches, as for \<^verbatim>\<open>'*'\<close>.\<close>

definition select_all :: selector_engine where
  "select_all doc selector = Inr [0..<length doc]"

section \<open>loadStylesheetCSSInWebview\<close>

subsection \<open>JSON.parse\<close>

text \<open>
  \<^verbatim>\<open>JSON.parse\<close> and \<^verbatim>\<open>JSON.stringify\<close> are the ECMAScript built-ins. A number
  is the double nearest to the value of its text, and an object is its members in the
  order they were created (a repeated key keeps its first place and its last value).
\<close>

datatype json =
    JNull
  | JBool bool
  | JNumber jsnumber
  | JString jsstring
  | JArray "json list"
  | JObject "(jsstring \<times> json) list"

datatype token =
    TLBracket | TRBracket | TLBrace | TRBrace | TComma | TColon
  | TString jsstring | TNumber jsstring | TTrue | TFalse | TNull

definition json_whitespace :: "jschar \<Rightarrow> bool" where
  "json_whitespace c \<longleftrightarrow> c = 0x09 \<or> c = 0x0A \<or> c = 0x0D \<or> c = 0x20"

definition is_digit :: "jschar \<Rightarrow> bool" where
  "is_digit c \<longleftrightarrow> 0x30 \<le> c \<and> c \<le> 0x39"

definition hex_value :: "jschar \<Rightarrow> nat option" where
  "hex_value c =
     (if 0x30 \<le> c \<and> c \<le> 0x39 then Some (unat c - 0x30)
      else if 0x41 \<le> c \<and> c \<le> 0x46 then Some (unat c - 0x41 + 10)
      else if 0x61 \<le> c \<and> c \<le> 0x66 then Some (unat c - 0x61 + 10)
      else None)"

fun hex_number :: "nat \<Rightarrow> jsstring \<Rightarrow> nat option" where
  "hex_number acc [] = Some acc"
| "hex_number acc (c # cs) =
     (case hex_value c of None \<Rightarrow> None | Some d \<Rightarrow> hex_number (16 * acc + d) cs)"

definition digits1 :: "jsstring \<Rightarrow> bool" where
  "digits1 cs \<longleftrightarrow> cs \<noteq> [] \<and> (\<forall>c \<in> set cs. is_digit c)"

definition number_char :: "jschar \<Rightarrow> bool" where
  "number_char c \<longleftrightarrow> is_digit c \<or> c = 0x2B \<or> c = 0x2D \<or> c = 0x2E \<or> c = 0x45 \<or> c = 0x65"

definition json_exponent :: "jsstring \<Rightarrow> bool" where
  "json_exponent cs =
     (case cs of
        [] \<Rightarrow> True
      | e # ds \<Rightarrow> (e = 0x45 \<or> e = 0x65) \<and>
          (case ds of
             [] \<Rightarrow> False
           | s # ds' \<Rightarrow> if s = 0x2B \<or> s = 0x2D then digits1 ds' else digits1 ds))"

definition json_fraction :: "jsstring \<Rightarrow> bool" where
  "json_fraction cs =
     (case cs of
        [] \<Rightarrow> True
      | d # ds \<Rightarrow> if d = 0x2E
                 then takeWhile is_digit ds \<noteq> [] \<and> json_exponent (dropWhile is_digit ds)
                 else json_exponent cs)"

definition json_integer :: "jsstring \<Rightarrow> bool" where
  "json_integer cs =
     (case cs of
        [] \<Rightarrow> False
      | d # ds \<Rightarrow> if d = 0x30 then json_fraction ds
                 else is_digit d \<and> json_fraction (dropWhile is_digit ds))"

definition json_number :: "jsstring \<Rightarrow> bool" where
  "json_number cs = (case cs of [] \<Rightarrow> False | c # ds \<Rightarrow> if c = 0x2D then json_integer ds else json_integer cs)"

text \<open>
  The value of a number text: the digits of the integer part and of the fraction, scaled
  by the exponent and by the length of the fraction, and rounded.
\<close>

fun digits_value :: "nat \<Rightarrow> jsstring \<Rightarrow> nat" where
  "digits_value acc [] = acc"
| "digits_value acc (c # cs) = digits_value (10 * acc + (unat c - 0x30)) cs"

definition number_value :: "jsstring \<Rightarrow> jsnumber" where
  "number_value cs =
     (let negative = (take 1 cs = [0x2D]);
          body = (if negative then drop 1 cs else cs);
          integer_digits = takeWhile is_digit body;
          after_integer = dropWhile is_digit body;
          has_fraction = (take 1 after_integer = [0x2E]);
          fraction_digits = (if has_fraction then takeWhile is_digit (drop 1 after_integer) else []);
          after_fraction = (if has_fraction then dropWhile is_digit (drop 1 after_integer)
                            else after_integer);
          exponent_text = drop 1 after_fraction;
          exponent_negative = (take 1 exponent_text = [0x2D]);
          exponent_digits = (if take 1 exponent_text = [0x2D] \<or> take 1 exponent_text = [0x2B]
                             then drop 1 exponent_text else exponent_text);
          e = int (digits_value 0 exponent_digits);
          m = of_nat (digits_value 0 (integer_digits @ fraction_digits))
                * 10 powi ((if exponent_negative then - e else e) - int (length fraction_digits))
      in round_double (if negative then - m else m))"

text \<open>
  The lexer. \<open>lex_string\<close> reads a string after its opening quote: a code unit below
  \<open>0x20\<close> is not allowed in it, and a backslash must begin one of the escapes of JSON.
  A number is the longest run of number characters, which must match the number grammar.
\<close>

definition cons_token :: "token \<Rightarrow> token list option \<Rightarrow> token list option" where
  "cons_token t r = map_option ((#) t) r"

function lex :: "jsstring \<Rightarrow> token list option"
  and lex_string :: "jsstring \<Rightarrow> jsstring \<Rightarrow> token list option" where
  "lex [] = Some []"
| "lex (c # cs) =
     (if json_whitespace c then lex cs
      else if c = 0x5B then cons_token TLBracket (lex cs)
      else if c = 0x5D then cons_token TRBracket (lex cs)
      else if c = 0x7B then cons_token TLBrace (lex cs)
      else if c = 0x7D then cons_token TRBrace (lex cs)
      else if c = 0x2C then cons_token TComma (lex cs)
      else if c = 0x3A then cons_token TColon (lex cs)
      else if c = 0x22 then lex_string [] cs
      else if c = 0x2D \<or> is_digit c
      then (if json_number (c # takeWhile number_char cs)
            then cons_token (TNumber (c # takeWhile number_char cs)) (lex (dropWhile number_char cs))
            else None)
      else if take 4 (c # cs) = js ''true'' then cons_token TTrue (lex (drop 3 cs))
      else if take 5 (c # cs) = js ''false'' then cons_token TFalse (lex (drop 4 cs))
      else if take 4 (c # cs) = js ''null'' then cons_token TNull (lex (drop 3 cs))
      else None)"
| "lex_string text [] = None"
| "lex_string text (c # cs) =
     (if c = 0x22 then cons_token (TString text) (lex cs)
      else if c = 0x5C
      then (case cs of
              [] \<Rightarrow> None
            | e # es \<Rightarrow>
                if e = 0x22 \<or> e = 0x5C \<or> e = 0x2F then lex_string (text @ [e]) es
                else if e = 0x62 then lex_string (text @ [0x08]) es
                else if e = 0x66 then lex_string (text @ [0x0C]) es
                else if e = 0x6E then lex_string (text @ [0x0A]) es
                else if e = 0x72 then lex_string (text @ [0x0D]) es
                else if e = 0x74 then lex_string (text @ [0x09]) es
                else if e = 0x75 \<and> 4 \<le> length es
                then (case hex_number 0 (take 4 es) of
                        None \<Rightarrow> None
                      | Some n \<Rightarrow> lex_string (text @ [of_nat n]) (drop 4 es))
                else None)
      else if c < 0x20 then None
      else lex_string (text @ [c]) cs)"
  by pat_completeness auto
termination
  by (relation "measure (\<lambda>x. case x of Inl cs \<Rightarrow> length cs | Inr (text, cs) \<Rightarrow> length cs)")
     (auto simp: less_Suc_eq_le length_dropWhile_le)

text \<open>
  The parser reads the tokens from left to right with a stack of open arrays and
  objects. \<open>parse_step\<close> is one transition; the text is accepted when the tokens end
  with the stack empty and one value complete.
\<close>

datatype frame =
    ArrayFrame "json list"
  | ObjectFrame "(jsstring \<times> json) list"
  | MemberFrame "(jsstring \<times> json) list" jsstring

datatype expect =
    ExpectValue | ExpectValueOrClose | ExpectKey | ExpectKeyOrClose | ExpectColon
  | ExpectCommaOrClose | ExpectEnd json

fun token_value :: "token \<Rightarrow> json option" where
  "token_value (TString s) = Some (JString s)"
| "token_value (TNumber n) = Some (JNumber (number_value n))"
| "token_value TTrue = Some (JBool True)"
| "token_value TFalse = Some (JBool False)"
| "token_value TNull = Some JNull"
| "token_value _ = None"

definition object_put :: "(jsstring \<times> json) list \<Rightarrow> jsstring \<Rightarrow> json \<Rightarrow> (jsstring \<times> json) list" where
  "object_put ms k v =
     (if k \<in> fst ` set ms then map (\<lambda>(k', v'). if k' = k then (k', v) else (k', v')) ms
      else ms @ [(k, v)])"

fun complete_value :: "json \<Rightarrow> frame list \<Rightarrow> (frame list \<times> expect) option" where
  "complete_value v [] = Some ([], ExpectEnd v)"
| "complete_value v (ArrayFrame vs # stack) = Some (ArrayFrame (vs @ [v]) # stack, ExpectCommaOrClose)"
| "complete_value v (MemberFrame ms k # stack) =
     Some (ObjectFrame (object_put ms k v) # stack, ExpectCommaOrClose)"
| "complete_value v (ObjectFrame ms # stack) = None"

definition begin_value :: "bool \<Rightarrow> frame list \<Rightarrow> token \<Rightarrow> (frame list \<times> expect) option" where
  "begin_value may_close stack t =
     (case token_value t of
        Some v \<Rightarrow> complete_value v stack
      | None \<Rightarrow>
          if t = TLBracket then Some (ArrayFrame [] # stack, ExpectValueOrClose)
          else if t = TLBrace then Some (ObjectFrame [] # stack, ExpectKeyOrClose)
          else if t = TRBracket \<and> may_close
          then (case stack of ArrayFrame vs # below \<Rightarrow> complete_value (JArray vs) below | _ \<Rightarrow> None)
          else None)"

definition begin_member :: "bool \<Rightarrow> frame list \<Rightarrow> token \<Rightarrow> (frame list \<times> expect) option" where
  "begin_member may_close stack t =
     (case stack of
        ObjectFrame ms # below \<Rightarrow>
          (case t of
             TString k \<Rightarrow> Some (MemberFrame ms k # below, ExpectColon)
           | TRBrace \<Rightarrow> if may_close then complete_value (JObject ms) below else None
           | _ \<Rightarrow> None)
      | _ \<Rightarrow> None)"

definition after_value :: "frame list \<Rightarrow> token \<Rightarrow> (frame list \<times> expect) option" where
  "after_value stack t =
     (case stack of
        ArrayFrame vs # below \<Rightarrow>
          if t = TComma then Some (stack, ExpectValue)
          else if t = TRBracket then complete_value (JArray vs) below
          else None
      | ObjectFrame ms # below \<Rightarrow>
          if t = TComma then Some (stack, ExpectKey)
          else if t = TRBrace then complete_value (JObject ms) below
          else None
      | _ \<Rightarrow> None)"

fun parse_step :: "frame list \<times> expect \<Rightarrow> token \<Rightarrow> (frame list \<times> expect) option" where
  "parse_step (stack, ExpectValue) t = begin_value False stack t"
| "parse_step (stack, ExpectValueOrClose) t = begin_value True stack t"
| "parse_step (stack, ExpectKey) t = begin_member False stack t"
| "parse_step (stack, ExpectKeyOrClose) t = begin_member True stack t"
| "parse_step (stack, ExpectColon) t = (if t = TColon then Some (stack, ExpectValue) else None)"
| "parse_step (stack, ExpectCommaOrClose) t = after_value stack t"
| "parse_step (stack, ExpectEnd v) t = None"

fun parse_tokens :: "frame list \<times> expect \<Rightarrow> token list \<Rightarrow> (frame list \<times> expect) option" where
  "parse_tokens state [] = Some state"
| "parse_tokens state (t # ts) =
     (case parse_step state t of None \<Rightarrow> None | Some state' \<Rightarrow> parse_tokens state' ts)"

definition JSON_parse :: "jsstring \<Rightarrow> js_error + json" where
  "JSON_parse text =
     (case lex text of
        None \<Rightarrow> Inl SyntaxError
      | Some ts \<Rightarrow>
          (case parse_tokens ([], ExpectValue) ts of
             Some ([], ExpectEnd v) \<Rightarrow> Inr v
           | _ \<Rightarrow> Inl SyntaxError))"

subsection \<open>JSON.stringify\<close>

text \<open>
  \<open>QuoteJSONString\<close>: the quotation mark, the backslash and the code units below \<open>0x20\<close>
  are escaped, and so is a surrogate that is not part of a pair. A number that is not
  finite is printed as \<open>null\<close>. The members of an object are printed in the order of its
  own property keys: the keys that are array indices first, in ascending order, then the
  other keys in the order they were created.
\<close>

fun join_with :: "jsstring \<Rightarrow> jsstring list \<Rightarrow> jsstring" where
  "join_with sep [] = []"
| "join_with sep [item] = item"
| "join_with sep (item # items) = item @ sep @ join_with sep items"

definition hex_digit :: "nat \<Rightarrow> jschar" where
  "hex_digit d = (if d < 10 then of_nat (0x30 + d) else of_nat (0x61 + (d - 10)))"

definition unicode_escape :: "jschar \<Rightarrow> jsstring" where
  "unicode_escape c =
     [0x5C, 0x75, hex_digit (unat c div 4096), hex_digit (unat c div 256 mod 16),
      hex_digit (unat c div 16 mod 16), hex_digit (unat c mod 16)]"

definition high_surrogate :: "jschar \<Rightarrow> bool" where
  "high_surrogate c \<longleftrightarrow> 0xD800 \<le> c \<and> c \<le> 0xDBFF"

definition low_surrogate :: "jschar \<Rightarrow> bool" where
  "low_surrogate c \<longleftrightarrow> 0xDC00 \<le> c \<and> c \<le> 0xDFFF"

definition quote_unit :: "jschar \<Rightarrow> jsstring" where
  "quote_unit c =
     (if c = 0x08 then [0x5C, 0x62]
      else if c = 0x09 then [0x5C, 0x74]
      else if c = 0x0A then [0x5C, 0x6E]
      else if c = 0x0C then [0x5C, 0x66]
      else if c = 0x0D then [0x5C, 0x72]
      else if c = 0x22 then [0x5C, 0x22]
      else if c = 0x5C then [0x5C, 0x5C]
      else if c < 0x20 \<or> high_surrogate c \<or> low_surrogate c then unicode_escape c
      else [c])"

fun quote_units :: "jsstring \<Rightarrow> jsstring" where
  "quote_units [] = []"
| "quote_units [c] = quote_unit c"
| "quote_units (c # d # cs) =
     (if high_surrogate c \<and> low_surrogate d then c # d # quote_units cs
      else quote_unit c @ quote_units (d # cs))"

definition QuoteJSONString :: "jsstring \<Rightarrow> jsstring" where
  "QuoteJSONString s = [0x22] @ quote_units s @ [0x22]"

definition array_index :: "jsstring \<Rightarrow> nat option" where
  "array_index k =
     (if digits1 k \<and> (k = [0x30] \<or> take 1 k \<noteq> [0x30]) \<and> digits_value 0 k < 2 ^ 32 - 1
      then Some (digits_value 0 k) else None)"

definition own_property_order :: "(jsstring \<times> 'a) list \<Rightarrow> (jsstring \<times> 'a) list" where
  "own_property_order ms =
     map snd (sort_key fst
       (List.map_filter (\<lambda>(k, v). map_option (\<lambda>i. (i, (k, v))) (array_index k)) ms))
     @ filter (\<lambda>(k, v). array_index k = None) ms"

fun JSON_stringify :: "json \<Rightarrow> jsstring" where
  "JSON_stringify JNull = js ''null''"
| "JSON_stringify (JBool b) = (if b then js ''true'' else js ''false'')"
| "JSON_stringify (JNumber n) = (case n of Num x \<Rightarrow> Number_toString n | _ \<Rightarrow> js ''null'')"
| "JSON_stringify (JString s) = QuoteJSONString s"
| "JSON_stringify (JArray vs) = [0x5B] @ join_with [0x2C] (map JSON_stringify vs) @ [0x5D]"
| "JSON_stringify (JObject ms) =
     [0x7B] @ join_with [0x2C]
        (map (\<lambda>(k, text). QuoteJSONString k @ [0x3A] @ text)
           (own_property_order (map (\<lambda>(k, v). (k, JSON_stringify v)) ms)))
     @ [0x7D]"

subsection \<open>The string literal in the script\<close>

text \<open>
  The library writes the registry back with the script
  \<^verbatim>\<open>document.querySelector('html').dataset.injectedstylesheets = '${JSON.stringify(list)}';\<close>
  so the webview reads the JSON text as the body of a single-quoted string literal.
  \<open>string_literal_value\<close> is the value of such a literal in a script (sloppy mode): an
  escape sequence stands for the character it names, a backslash before any other
  character is dropped, and a line break in the body is a syntax error. A single quote
  in the body ends the literal early: the result is then the value up to there together
  with the rest of the body, which the webview reads as script.
\<close>

definition is_octal :: "jschar \<Rightarrow> bool" where
  "is_octal c \<longleftrightarrow> 0x30 \<le> c \<and> c \<le> 0x37"

fun octal_number :: "nat \<Rightarrow> jsstring \<Rightarrow> nat" where
  "octal_number acc [] = acc"
| "octal_number acc (c # cs) = octal_number (8 * acc + (unat c - 0x30)) cs"

definition utf16 :: "nat \<Rightarrow> jsstring" where
  "utf16 n =
     (if n < 0x10000 then [of_nat n]
      else [of_nat (0xD800 + (n - 0x10000) div 0x400), of_nat (0xDC00 + (n - 0x10000) mod 0x400)])"

function string_literal_value ::
  "jsstring \<Rightarrow> jsstring \<Rightarrow> js_error + jsstring \<times> jsstring option" where
  "string_literal_value text [] = Inr (text, None)"
| "string_literal_value text (c # cs) =
     (if c = 0x27 then Inr (text, Some cs)
      else if c = 0x0A \<or> c = 0x0D then Inl SyntaxError
      else if c \<noteq> 0x5C then string_literal_value (text @ [c]) cs
      else (case cs of
              [] \<Rightarrow> Inl SyntaxError
            | e # es \<Rightarrow>
                if e = 0x62 then string_literal_value (text @ [0x08]) es
                else if e = 0x66 then string_literal_value (text @ [0x0C]) es
                else if e = 0x6E then string_literal_value (text @ [0x0A]) es
                else if e = 0x72 then string_literal_value (text @ [0x0D]) es
                else if e = 0x74 then string_literal_value (text @ [0x09]) es
                else if e = 0x76 then string_literal_value (text @ [0x0B]) es
                else if e = 0x0D \<and> take 1 es = [0x0A] then string_literal_value text (drop 1 es)
                else if e = 0x0A \<or> e = 0x0D \<or> e = 0x2028 \<or> e = 0x2029
                then string_literal_value text es
                else if e = 0x78
                then (if 2 \<le> length es
                      then (case hex_number 0 (take 2 es) of
                              None \<Rightarrow> Inl SyntaxError
                            | Some n \<Rightarrow> string_literal_value (text @ [of_nat n]) (drop 2 es))
                      else Inl SyntaxError)
                else if e = 0x75 \<and> take 1 es = [0x7B]
                then (if takeWhile (\<lambda>d. d \<noteq> 0x7D) (drop 1 es) \<noteq> []
                         \<and> dropWhile (\<lambda>d. d \<noteq> 0x7D) (drop 1 es) \<noteq> []
                      then (case hex_number 0 (takeWhile (\<lambda>d. d \<noteq> 0x7D) (drop 1 es)) of
                              None \<Rightarrow> Inl SyntaxError
                            | Some n \<Rightarrow>
                                if n \<le> 0x10FFFF
                                then string_literal_value (text @ utf16 n)
                                       (drop 1 (dropWhile (\<lambda>d. d \<noteq> 0x7D) (drop 1 es)))
                                else Inl SyntaxError)
                      else Inl SyntaxError)
                else if e = 0x75
                then (if 4 \<le> length es
                      then (case hex_number 0 (take 4 es) of
                              None \<Rightarrow> Inl SyntaxError
                            | Some n \<Rightarrow> string_literal_value (text @ [of_nat n]) (drop 4 es))
                      else Inl SyntaxError)
                else if is_octal e
                then string_literal_value
                       (text @ [of_nat (octal_number 0
                           (e # takeWhile is_octal (take (if e \<le> 0x33 then 2 else 1) es)))])
                       (drop (length (takeWhile is_octal (take (if e \<le> 0x33 then 2 else 1) es))) es)
                else string_literal_value (text @ [e]) es))"
  by pat_completeness auto
termination
  apply (relation "measure (\<lambda>(text, cs). length cs)")
  apply (auto simp: less_Suc_eq_le length_dropWhile_le le_diff_conv)
  apply (rule order_trans [OF length_dropWhile_le])
  apply simp
  done

subsection \<open>String.prototype.trim\<close>

definition js_whitespace :: "jschar \<Rightarrow> bool" where
  "js_whitespace c \<longleftrightarrow>
     c = 0x09 \<or> c = 0x0A \<or> c = 0x0B \<or> c = 0x0C \<or> c = 0x0D \<or> c = 0x20 \<or> c = 0xA0
     \<or> c = 0x1680 \<or> (0x2000 \<le> c \<and> c \<le> 0x200A) \<or> c = 0x2028 \<or> c = 0x2029
     \<or> c = 0x202F \<or> c = 0x205F \<or> c = 0x3000 \<or> c = 0xFEFF"

definition trim :: "jsstring \<Rightarrow> jsstring" where
  "trim s = rev (dropWhile js_whitespace (rev (dropWhile js_whitespace s)))"

subsection \<open>The webview, the host and what the function does to them\<close>

text \<open>
  The webview is known by what the library reads and writes in it: the \<open>dataset\<close>
  attribute \<open>injectedstylesheets\<close> of the root element, absent or a string, and the
  style sheets inserted by \<^verbatim>\<open>insertCSS\<close>. The host supplies everything else: whether the
  remote calls reject (\<open>readFault\<close>, \<open>insertFault\<close>, \<open>writeFault\<close>), the events the
  read stream of a path emits, the \<open>styles\<close> the CSS minifier returns for a text, and
  the line terminator of the platform. \<open>runScript\<close> is what the JavaScript engine of
  the webview does with a script that is more than the one assignment the library means
  to send. What the function does to the outside is the list of its effects, in order.
\<close>

datatype stream_event = Data jsstring | StreamError js_error | Close

datatype effect =
    ExecuteJavaScript jsstring
  | CreateReadStream jsstring
  | Minify jsstring
  | InsertCSS jsstring
  | Callback "js_error option" "jsstring option"
  | Uncaught js_error

record webview =
  injectedstylesheets :: "jsstring option"
  insertedCSS :: "jsstring list"

record host =
  readFault :: "js_error option"
  fileStream :: "jsstring \<Rightarrow> stream_event list"
  minifyStyles :: "jsstring \<Rightarrow> jsstring"
  insertFault :: "js_error option"
  writeFault :: "js_error option"
  runScript :: "webview \<Rightarrow> jsstring \<Rightarrow> js_error + webview"
  EOL :: jsstring

text \<open>
  The two scripts the library sends, and what the second does in the webview: when the
  text is the body of one string literal, the attribute is set to the value of the
  literal; when the literal is malformed, the script does not compile; when the literal
  ends before the text does, the script is some other script.
\<close>

definition read_script :: jsstring where
  "read_script = js ''document.querySelector('html').dataset.injectedstylesheets;''"

definition write_script :: "jsstring \<Rightarrow> jsstring" where
  "write_script text =
     js ''document.querySelector('html').dataset.injectedstylesheets = '' @ [0x27] @ text @ [0x27, 0x3B]"

definition run_write_script :: "host \<Rightarrow> webview \<Rightarrow> jsstring \<Rightarrow> js_error + webview" where
  "run_write_script h wv text =
     (case string_literal_value [] text of
        Inl e \<Rightarrow> Inl e
      | Inr (v, None) \<Rightarrow> Inr (wv\<lparr>injectedstylesheets := Some v\<rparr>)
      | Inr (v, Some rest) \<Rightarrow> runScript h wv (write_script text))"

text \<open>
  \<^verbatim>\<open>[ ...new Set(list) ]\<close> keeps the first of equal values, compared by SameValueZero:
  primitive values by value (the two zeros are equal), arrays and objects by identity,
  and no two values of a parsed text are the same object.
\<close>

fun same_value_zero :: "json \<Rightarrow> json \<Rightarrow> bool" where
  "same_value_zero JNull JNull = True"
| "same_value_zero (JBool a) (JBool b) = (a = b)"
| "same_value_zero (JNumber a) (JNumber b) = (a = b)"
| "same_value_zero (JString a) (JString b) = (a = b)"
| "same_value_zero _ _ = False"

definition Set_add :: "json list \<Rightarrow> json \<Rightarrow> json list" where
  "Set_add items v = (if \<exists>u \<in> set items. same_value_zero u v then items else items @ [v])"

definition new_Set :: "json list \<Rightarrow> json list" where
  "new_Set values = fold (\<lambda>v items. Set_add items v) values []"

text \<open>
  \<^verbatim>\<open>
  let cssData
  stream.on('data', (chunk) => { cssData += chunk })
  \<close>
  \<open>cssData\<close> starts as \<open>undefined\<close> (\<open>None\<close>); adding a string to \<open>undefined\<close> gives the text
  \<open>"undefined"\<close> followed by the string.
\<close>

definition append_chunk :: "jsstring option \<Rightarrow> jsstring \<Rightarrow> jsstring" where
  "append_chunk cssData chunk =
     (case cssData of None \<Rightarrow> js ''undefined'' @ chunk | Some text \<Rightarrow> text @ chunk)"

definition previously_injected :: "jsstring \<Rightarrow> js_error" where
  "previously_injected stylesheetPath =
     Error (js ''stylesheet was previously injected from path: '' @ stylesheetPath)"

text \<open>
  \<^verbatim>\<open>
  stream.on('close', () => {
      let cssText = cssData.toString().trim()
      cssText = `${cssText}${os.EOL}`
      cssText = (new cleanCSS()).minify(cssText)
      webviewElement.insertCSS(cssText.styles)
          .then((result) => {
              stylesheetPathList.push(stylesheetPath)
              stylesheetPathList = [ ...new Set(stylesheetPathList) ]
              webviewElement.executeJavaScript(`... = '${JSON.stringify(stylesheetPathList)}';`)
                  .then(() => { callback(null, cssText.styles) })
                  .catch((error) => { callback(error) })
          })
          .catch((error) => { callback(error) })
  })
  \<close>
  With \<open>cssData\<close> still \<open>undefined\<close> the call of \<open>toString\<close> throws a TypeError, which
  nothing catches.
\<close>

definition onClose ::
  "host \<Rightarrow> jsstring \<Rightarrow> json list \<Rightarrow> jsstring option \<Rightarrow> webview \<Rightarrow> webview \<times> json list \<times> effect list" where
  "onClose h stylesheetPath stylesheetPathList cssData wv =
     (case cssData of
        None \<Rightarrow> (wv, stylesheetPathList, [Uncaught TypeError])
      | Some text \<Rightarrow>
          (let cssText = trim text @ EOL h;
               styles = minifyStyles h cssText
           in case insertFault h of
                Some e \<Rightarrow> (wv, stylesheetPathList, [Minify cssText, InsertCSS styles, Callback (Some e) None])
              | None \<Rightarrow>
                  (let wv1 = wv\<lparr>insertedCSS := insertedCSS wv @ [styles]\<rparr>;
                       pathList = new_Set (stylesheetPathList @ [JString stylesheetPath]);
                       text = JSON_stringify (JArray pathList);
                       done = [Minify cssText, InsertCSS styles, ExecuteJavaScript (write_script text)]
                   in case (case writeFault h of Some e \<Rightarrow> Inl e | None \<Rightarrow> run_write_script h wv1 text) of
                        Inl e \<Rightarrow> (wv1, pathList, done @ [Callback (Some e) None])
                      | Inr wv2 \<Rightarrow> (wv2, pathList, done @ [Callback None (Some styles)]))))"

text \<open>
  The three listeners on the stream, run on the events in the order they arrive:
  \<open>data\<close> adds the chunk, \<open>error\<close> calls the callback with the error, \<open>close\<close> runs
  the handler above.
\<close>

fun streamHandlers ::
  "host \<Rightarrow> jsstring \<Rightarrow> stream_event list \<Rightarrow> json list \<Rightarrow> jsstring option \<Rightarrow> webview \<Rightarrow> webview \<times> effect list" where
  "streamHandlers h stylesheetPath [] stylesheetPathList cssData wv = (wv, [])"
| "streamHandlers h stylesheetPath (Data chunk # events) stylesheetPathList cssData wv =
     streamHandlers h stylesheetPath events stylesheetPathList (Some (append_chunk cssData chunk)) wv"
| "streamHandlers h stylesheetPath (StreamError error # events) stylesheetPathList cssData wv =
     (let (wv', effects) = streamHandlers h stylesheetPath events stylesheetPathList cssData wv
      in (wv', Callback (Some error) None # effects))"
| "streamHandlers h stylesheetPath (Close # events) stylesheetPathList cssData wv =
     (let (wv1, pathList, effects1) = onClose h stylesheetPath stylesheetPathList cssData wv;
          (wv2, effects2) = streamHandlers h stylesheetPath events pathList cssData wv1
      in (wv2, effects1 @ effects2))"

text \<open>
  \<^verbatim>\<open>
  webviewElement.executeJavaScript(`document.querySelector('html').dataset.injectedstylesheets;`)
      .then((result) => {
          let stylesheetPathList = []
          if (result) {
              try {
                  stylesheetPathList = JSON.parse(result.toString())
              } catch (exception) {
                  callback(exception)
                  return
              }
              logger.debug('previously injected stylesheets paths:', stylesheetPathList.join(', '))
              if (stylesheetPathList.includes(stylesheetPath)) {
                  callback(Error(`stylesheet was previously injected from path: ${stylesheetPath}`))
                  return
              }
          }
          let cssData
          const stream = fs.createReadStream(stylesheetPath, ...)
          ...
      })
      .catch((error) => { callback(error) })
  \<close>
  An empty string is falsy, so an empty attribute is treated like an absent one. A parsed
  value that is not an array has no \<open>join\<close> method: the call throws a TypeError, which
  the outer \<open>catch\<close> hands to the callback.

  On an array, \<open>join\<close> converts every entry to a string before \<open>includes\<close> is reached.
  The conversion of a parsed value throws a TypeError in one case only: an object with a
  member named \<open>toString\<close>, whose value is never a function, so that neither it nor the
  inherited \<open>valueOf\<close> gives a primitive value. An array is converted by joining its own
  entries. The outer \<open>catch\<close> hands this TypeError to the callback too.
\<close>

fun toString_throws :: "json \<Rightarrow> bool" where
  "toString_throws (JObject ms) \<longleftrightarrow> js ''toString'' \<in> fst ` set ms"
| "toString_throws (JArray vs) \<longleftrightarrow> (\<exists>v \<in> set vs. toString_throws v)"
| "toString_throws _ \<longleftrightarrow> False"

definition join_throws :: "json list \<Rightarrow> bool" where
  "join_throws stylesheetPathList \<longleftrightarrow> (\<exists>v \<in> set stylesheetPathList. toString_throws v)"

definition readStylesheet :: "host \<Rightarrow> webview \<Rightarrow> jsstring \<Rightarrow> json list \<Rightarrow> webview \<times> effect list" where
  "readStylesheet h webviewElement stylesheetPath stylesheetPathList =
     (let (wv, effects) = streamHandlers h stylesheetPath (fileStream h stylesheetPath)
                            stylesheetPathList None webviewElement
      in (wv, CreateReadStream stylesheetPath # effects))"

definition loadStylesheetCSSInWebview :: "host \<Rightarrow> webview \<Rightarrow> jsstring \<Rightarrow> webview \<times> effect list" where
  "loadStylesheetCSSInWebview h webviewElement stylesheetPath =
     (let (wv, effects) =
        (case readFault h of
           Some error \<Rightarrow> (webviewElement, [Callback (Some error) None])
         | None \<Rightarrow>
             (case injectedstylesheets webviewElement of
                None \<Rightarrow> readStylesheet h webviewElement stylesheetPath []
              | Some result \<Rightarrow>
                  if result = [] then readStylesheet h webviewElement stylesheetPath []
                  else (case JSON_parse result of
                          Inl exception \<Rightarrow> (webviewElement, [Callback (Some exception) None])
                        | Inr (JArray stylesheetPathList) \<Rightarrow>
                            if join_throws stylesheetPathList
                            then (webviewElement, [Callback (Some TypeError) None])
                            else if JString stylesheetPath \<in> set stylesheetPathList
                            then (webviewElement,
                                  [Callback (Some (previously_injected stylesheetPath)) None])
                            else readStylesheet h webviewElement stylesheetPath stylesheetPathList
                        | Inr _ \<Rightarrow> (webviewElement, [Callback (Some TypeError) None]))))
      in (wv, ExecuteJavaScript read_script # effects))"

subsection \<open>Paths that need no escaping, and injections in sequence\<close>

text \<open>
  A code unit is safe when neither \<^verbatim>\<open>JSON.stringify\<close> nor the string literal of the
  script changes it: it is not a control character, a quotation mark, an apostrophe, a
  backslash or a surrogate. \<open>plain_unit\<close> is all the string literal asks for.
  \<open>registry_text\<close> is the JSON text of a list of paths, \<open>more_tokens\<close> the tokens of
  its second and later entries.
\<close>

definition safe_unit :: "jschar \<Rightarrow> bool" where
  "safe_unit c \<longleftrightarrow> 0x20 \<le> c \<and> c \<noteq> 0x22 \<and> c \<noteq> 0x27 \<and> c \<noteq> 0x5C
     \<and> \<not> high_surrogate c \<and> \<not> low_surrogate c"

definition safe_path :: "jsstring \<Rightarrow> bool" where
  "safe_path p \<longleftrightarrow> (\<forall>c \<in> set p. safe_unit c)"

definition plain_unit :: "jschar \<Rightarrow> bool" where
  "plain_unit c \<longleftrightarrow> c \<noteq> 0x27 \<and> c \<noteq> 0x0A \<and> c \<noteq> 0x0D \<and> c \<noteq> 0x5C"

definition registry_text :: "jsstring list \<Rightarrow> jsstring" where
  "registry_text paths = JSON_stringify (JArray (map JString paths))"

definition more_tokens :: "jsstring list \<Rightarrow> token list" where
  "more_tokens ps = concat (map (\<lambda>q. [TComma, TString q]) ps)"

text \<open>
  A host on which an injection can succeed: no remote call rejects, and the stream of the
  file gives at least one chunk and then closes. \<open>inject_all\<close> injects the paths one
  after the other into the same webview and keeps the effects of each call; a call has
  succeeded when its last effect is the callback with no error.
\<close>

definition no_faults :: "host \<Rightarrow> bool" where
  "no_faults h \<longleftrightarrow> readFault h = None \<and> insertFault h = None \<and> writeFault h = None"

definition reads_cleanly :: "host \<Rightarrow> jsstring \<Rightarrow> bool" where
  "reads_cleanly h p \<longleftrightarrow> (\<exists>chunks. chunks \<noteq> [] \<and> fileStream h p = map Data chunks @ [Close])"

fun inject_all :: "host \<Rightarrow> webview \<Rightarrow> jsstring list \<Rightarrow> webview \<times> effect list list" where
  "inject_all h wv [] = (wv, [])"
| "inject_all h wv (p # ps) =
     (let (wv1, effects) = loadStylesheetCSSInWebview h wv p;
          (wv2, traces) = inject_all h wv1 ps
      in (wv2, effects # traces))"

definition succeeded :: "effect list \<Rightarrow> bool" where
  "succeeded effects \<longleftrightarrow> (\<exists>styles. effects \<noteq> [] \<and> last effects = Callback None (Some styles))"

subsection \<open>Hosts for concrete runs\<close>

text \<open>
  A host for concrete runs: no remote call rejects, every file is read as the two chunks
  \<open>"a{}"\<close> and \<open>"b{} "\<close>, the minifier returns its input, and lines end with a line
  feed, and the webview takes no script but the assignment. In \<open>failing_host\<close> the stream fails after the first chunk. \<open>fresh_webview\<close> is a
  document into which nothing has been injected.
\<close>

definition example_host :: host where
  "example_host =
     \<lparr>readFault = None, fileStream = (\<lambda>path. [Data (js ''a{}''), Data (js ''b{} ''), Close]),
      minifyStyles = (\<lambda>cssText. cssText), insertFault = None, writeFault = None,
      runScript = (\<lambda>wv script. Inl SyntaxError), EOL = [0x0A]\<rparr>"

definition failing_host :: host where
  "failing_host =
     example_host\<lparr>fileStream := (\<lambda>path. [Data (js ''a{}''), StreamError (HostError (js ''EIO'')), Close])\<rparr>"

definition fresh_webview :: webview where
  "fresh_webview = \<lparr>injectedstylesheets = None, insertedCSS = []\<rparr>"

definition BACKSLASH :: jschar where
  "BACKSLASH = 0x5C"

section \<open>formatDuration\<close>





section \<open>didScrollIntoViewport\<close>

text \<open>
  \<^verbatim>\<open>
  let didScrollIntoViewport = (elementList, threshold = 0.75, fixedCount = elementList.length) => {
      if (elementList.length === 0) { return }
      let targetIndex = Math.floor(elementList.length - (1 - threshold) * fixedCount)
      const targetElement = elementList[targetIndex - 1]
      const targetElementRect = targetElement.getBoundingClientRect()
      return targetElementRect.top <= document.documentElement.clientHeight
  }
  \<close>
  The subtraction and the multiplication are those of the doubles: the exact result,
  rounded. The sign of a zero is not kept, and nothing in this function can tell the two
  zeros apart.
\<close>

fun number_sub :: "jsnumber \<Rightarrow> jsnumber \<Rightarrow> jsnumber" where
  "number_sub (Num a) (Num b) = round_double (a - b)"
| "number_sub NaN _ = NaN"
| "number_sub _ NaN = NaN"
| "number_sub PosInfinity PosInfinity = NaN"
| "number_sub NegInfinity NegInfinity = NaN"
| "number_sub PosInfinity _ = PosInfinity"
| "number_sub NegInfinity _ = NegInfinity"
| "number_sub (Num a) PosInfinity = NegInfinity"
| "number_sub (Num a) NegInfinity = PosInfinity"

definition signed_infinity :: "bool \<Rightarrow> jsnumber" where
  "signed_infinity positive = (if positive then PosInfinity else NegInfinity)"

fun number_mul :: "jsnumber \<Rightarrow> jsnumber \<Rightarrow> jsnumber" where
  "number_mul (Num a) (Num b) = round_double (a * b)"
| "number_mul NaN _ = NaN"
| "number_mul _ NaN = NaN"
| "number_mul PosInfinity (Num b) = (if b = 0 then NaN else signed_infinity (0 < b))"
| "number_mul NegInfinity (Num b) = (if b = 0 then NaN else signed_infinity (b < 0))"
| "number_mul (Num a) PosInfinity = (if a = 0 then NaN else signed_infinity (0 < a))"
| "number_mul (Num a) NegInfinity = (if a = 0 then NaN else signed_infinity (a < 0))"
| "number_mul PosInfinity PosInfinity = PosInfinity"
| "number_mul NegInfinity NegInfinity = PosInfinity"
| "number_mul PosInfinity NegInfinity = NegInfinity"
| "number_mul NegInfinity PosInfinity = NegInfinity"

fun Math_floor :: "jsnumber \<Rightarrow> jsnumber" where
  "Math_floor (Num a) = Num (of_int \<lfloor>a\<rfloor>)"
| "Math_floor x = x"

text \<open>
  An omitted argument is \<open>None\<close>. An element is known by the top edge of its bounding
  rectangle. The function returns \<open>undefined\<close> (\<open>None\<close>) or a boolean, or throws.
\<close>

record element_box =
  box_top :: rat

definition targetIndex :: "nat \<Rightarrow> jsnumber \<Rightarrow> jsnumber \<Rightarrow> jsnumber" where
  "targetIndex len threshold fixedCount =
     Math_floor (number_sub (Num (of_nat len)) (number_mul (number_sub (Num 1) threshold) fixedCount))"

text \<open>
  \<^verbatim>\<open>list[i]\<close>: the element when the number \<open>i\<close> is an index of the list, \<open>undefined\<close>
  otherwise.
\<close>

definition element_at :: "'a list \<Rightarrow> jsnumber \<Rightarrow> 'a option" where
  "element_at xs i =
     (case i of
        Num q \<Rightarrow> if q = of_int \<lfloor>q\<rfloor> \<and> 0 \<le> q \<and> q < of_nat (length xs) then Some (xs ! nat \<lfloor>q\<rfloor>)
                 else None
      | _ \<Rightarrow> None)"

definition didScrollIntoViewport ::
  "rat \<Rightarrow> element_box list \<Rightarrow> jsnumber option \<Rightarrow> jsnumber option \<Rightarrow> js_error + bool option" where
  "didScrollIntoViewport clientHeight elementList thresholdArg fixedCountArg =
     (let threshold = (case thresholdArg of None \<Rightarrow> Num (3 / 4) | Some t \<Rightarrow> t);
          fixedCount = (case fixedCountArg of None \<Rightarrow> Num (of_nat (length elementList)) | Some f \<Rightarrow> f)
      in if length elementList = 0 then Inr None
         else (case element_at elementList
                      (number_sub (targetIndex (length elementList) threshold fixedCount) (Num 1)) of
                 None \<Rightarrow> Inl TypeError
               | Some targetElement \<Rightarrow> Inr (Some (box_top targetElement \<le> clientHeight))))"

section \<open>remove\<close>

text \<open>
  \<^verbatim>\<open>
  let remove = function(element, delay = 0) {
      let timeout = setTimeout(() => {
          if (element.parentNode) {
              element.parentNode.removeChild(element)
          }
          clearTimeout(timeout)
      }, delay)
  }
  \<close>
  The document is a store of nodes: each node has a parent or none, and a list of
  children. \<open>removeChild\<close> is the DOM operation: it throws a \<open>NotFoundError\<close> when the
  node is not a child of the receiver and otherwise takes it out of the receiver's
  children and clears its parent.
\<close>

type_synonym node = nat

record dom_tree =
  parentNode :: "node \<Rightarrow> node option"
  childNodes :: "node \<Rightarrow> node list"

definition removeChild :: "dom_tree \<Rightarrow> node \<Rightarrow> node \<Rightarrow> js_error + dom_tree" where
  "removeChild d parent child =
     (if parentNode d child = Some parent
      then Inr (d\<lparr>parentNode := (parentNode d)(child := None),
                  childNodes := (childNodes d)(parent := removeAll child (childNodes d parent))\<rparr>)
      else Inl (DOMException (js ''NotFoundError'')))"

text \<open>
  The window holds the document and the pending timers: under each identifier the delay
  in milliseconds and the element the closure made by \<open>remove\<close> refers to.
\<close>

record window =
  document :: dom_tree
  timers :: "nat \<Rightarrow> (int \<times> node) option"
  nextTimer :: nat

definition setTimeout :: "window \<Rightarrow> node \<Rightarrow> int \<Rightarrow> window" where
  "setTimeout w element delay =
     w\<lparr>timers := (timers w)(nextTimer w \<mapsto> (delay, element)), nextTimer := Suc (nextTimer w)\<rparr>"

definition clearTimeout :: "window \<Rightarrow> nat \<Rightarrow> window" where
  "clearTimeout w timeout = w\<lparr>timers := (timers w)(timeout := None)\<rparr>"

definition remove :: "window \<Rightarrow> node \<Rightarrow> int option \<Rightarrow> window" where
  "remove w element delayArg =
     setTimeout w element (case delayArg of None \<Rightarrow> 0 | Some delay \<Rightarrow> delay)"

text \<open>The closure's body, run on the document as it is when the timer fires.\<close>

definition remove_deferred :: "dom_tree \<Rightarrow> node \<Rightarrow> js_error + dom_tree" where
  "remove_deferred d element =
     (case parentNode d element of
        None \<Rightarrow> Inr d
      | Some parent \<Rightarrow> removeChild d parent element)"

text \<open>
  Firing a pending timer takes it off the pending ones, runs the closure and then
  \<^verbatim>\<open>clearTimeout(timeout)\<close>; an exception of the closure is returned beside the window.
\<close>

definition fireTimer :: "window \<Rightarrow> nat \<Rightarrow> js_error option \<times> window" where
  "fireTimer w timeout =
     (case timers w timeout of
        None \<Rightarrow> (None, w)
      | Some (delay, element) \<Rightarrow>
          (let w1 = w\<lparr>timers := (timers w)(timeout := None)\<rparr>
           in case remove_deferred (document w1) element of
                Inl e \<Rightarrow> (Some e, w1)
              | Inr d \<Rightarrow> (None, clearTimeout (w1\<lparr>document := d\<rparr>) timeout)))"

text \<open>A small document for concrete runs: node 0 has no parent and the children 1 and 2.\<close>

definition example_tree :: dom_tree where
  "example_tree =
     \<lparr>parentNode = (\<lambda>n. if n = 1 \<or> n = 2 then Some 0 else None),
      childNodes = (\<lambda>n. if n = 0 then [1, 2] else [])\<rparr>"

definition example_window :: window where
  "example_window = \<lparr>document = example_tree, timers = Map.empty, nextTimer = 0\<rparr>"

section \<open>Properties\<close>

subsection \<open>Numbers\<close>

text \<open>
  The rounding is exact on every number that is a double: \<open>m * 2 powi j\<close> with
  \<open>\<bar>m\<bar> < 2 ^ 53\<close> and \<open>j\<close> in the range of the exponents. So the integers and the
  quarters of integers below \<open>2 ^ 53\<close> are their own doubles.
\<close>

lemma ilog2_lower: "1 \<le> a \<Longrightarrow> 2 ^ ilog2 a \<le> a"
proof (induction a rule: ilog2.induct)
  case (1 a)
  show ?case
  proof (cases "a < 2")
    case True
    with 1 show ?thesis by (simp add: ilog2.simps)
  next
    case False
    then have "2 ^ ilog2 (a / 2) \<le> a / 2"
      by (intro 1) simp_all
    with False show ?thesis by (simp add: ilog2.simps [of a])
  qed
qed

lemma ilog2_upper: "a < 2 ^ Suc (ilog2 a)"
proof (induction a rule: ilog2.induct)
  case (1 a)
  show ?case
  proof (cases "a < 2")
    case True
    then show ?thesis by (simp add: ilog2.simps)
  next
    case False
    then have "a / 2 < 2 ^ Suc (ilog2 (a / 2))"
      by (intro 1) simp_all
    with False show ?thesis by (simp add: ilog2.simps [of a])
  qed
qed

lemma exponent_of_lower: "0 < a \<Longrightarrow> 2 powi exponent_of a \<le> a"
proof (cases "1 \<le> a")
  case True
  then show ?thesis using ilog2_lower [of a] by (simp add: exponent_of_def)
next
  case False
  assume "0 < a"
  show ?thesis
  proof (cases "2 ^ ilog2 (1 / a) = 1 / a")
    case True
    then have "2 powi (- int (ilog2 (1 / a))) = a"
      by (simp add: power_int_minus)
    with False True show ?thesis by (simp add: exponent_of_def)
  next
    case ne: False
    have "1 / a < 2 ^ Suc (ilog2 (1 / a))"
      by (rule ilog2_upper)
    then have "1 / 2 ^ Suc (ilog2 (1 / a)) < a"
      using \<open>0 < a\<close> by (simp add: field_simps)
    moreover have "2 powi (- int (ilog2 (1 / a)) - 1) = (1 :: rat) / 2 ^ Suc (ilog2 (1 / a))"
    proof -
      have "- int (ilog2 (1 / a)) - 1 = - int (Suc (ilog2 (1 / a)))" by simp
      then show ?thesis
        by (simp only: power_int_minus_divide power_int_of_nat)
    qed
    ultimately show ?thesis using False ne by (simp add: exponent_of_def)
  qed
qed

lemma exponent_of_upper: "0 < a \<Longrightarrow> a < 2 powi (exponent_of a + 1)"
proof (cases "1 \<le> a")
  case True
  then show ?thesis using ilog2_upper [of a]
    by (simp add: exponent_of_def power_int_add)
next
  case False
  assume "0 < a"
  then have y: "1 \<le> 1 / a" using False by simp
  show ?thesis
  proof (cases "2 ^ ilog2 (1 / a) = 1 / a")
    case True
    then have "2 powi (- int (ilog2 (1 / a))) = a"
      by (simp add: power_int_minus)
    moreover have "(2 :: rat) powi (- int (ilog2 (1 / a)) + 1) = 2 powi (- int (ilog2 (1 / a))) * 2"
      by (rule power_int_add_1) simp
    ultimately have "2 powi (- int (ilog2 (1 / a)) + 1) = 2 * a"
      by simp
    with False True \<open>0 < a\<close> show ?thesis by (simp add: exponent_of_def)
  next
    case ne: False
    have "2 ^ ilog2 (1 / a) \<le> 1 / a"
      by (rule ilog2_lower [OF y])
    with ne have "2 ^ ilog2 (1 / a) < 1 / a" by simp
    then have "a < 1 / 2 ^ ilog2 (1 / a)"
      using \<open>0 < a\<close> by (simp add: field_simps)
    moreover have "2 powi (- int (ilog2 (1 / a))) = (1 :: rat) / 2 ^ ilog2 (1 / a)"
      by (simp only: power_int_minus_divide power_int_of_nat)
    ultimately show ?thesis using False ne by (simp add: exponent_of_def)
  qed
qed


lemma round_half_even_int: "round_half_even (of_int n) = n"
  by (simp add: round_half_even_def)

text \<open>A dyadic number with a significand below 2^53 and an exponent in range is a double.\<close>

lemma round_double_exact:
  assumes x: "x = of_int m * 2 powi j" and m: "\<bar>m\<bar> < 2 ^ 53" and j: "- 1074 \<le> j" "j \<le> 971"
  shows "round_double x = Num x"
proof (cases "x = 0")
  case True
  then show ?thesis by (simp add: round_double_def)
next
  case False
  define a where "a = \<bar>x\<bar>"
  define k where "k = max (exponent_of a - 52) (- 1074)"
  have a: "a = of_int \<bar>m\<bar> * 2 powi j" "0 < a"
    using False by (simp_all add: a_def x abs_mult)
  have "2 powi exponent_of a \<le> a"
    by (rule exponent_of_lower [OF a(2)])
  also have "a < 2 ^ 53 * 2 powi j"
  proof -
    have "(of_int \<bar>m\<bar> :: rat) < of_int (2 ^ 53)"
      using m by (simp only: of_int_less_iff)
    then show ?thesis by (simp add: a(1))
  qed
  also have "(2 :: rat) ^ 53 * 2 powi j = 2 powi (53 + j)"
    by (simp add: power_int_add)
  finally have lt53: "(2 :: rat) powi exponent_of a < 2 powi (53 + j)" .
  have "exponent_of a < 53 + j"
  proof (rule ccontr)
    assume "\<not> exponent_of a < 53 + j"
    then have "(2 :: rat) powi (53 + j) \<le> 2 powi exponent_of a"
      by (intro power_int_increasing) simp_all
    with lt53 show False by simp
  qed
  then have kj: "k \<le> j"
    using j by (simp add: k_def)
  have q: "a / 2 powi k = of_int (\<bar>m\<bar> * 2 ^ nat (j - k))"
  proof -
    have "(2 :: rat) powi j = 2 powi (j - k) * 2 powi k"
      by (simp add: power_int_add [symmetric])
    moreover have "(2 :: rat) powi (j - k) = 2 ^ nat (j - k)"
      using kj by (simp add: power_int_nonneg_exp)
    ultimately show ?thesis by (simp add: a(1))
  qed
  have r: "of_int (round_half_even (a / 2 powi k)) * 2 powi k = a"
    unfolding q round_half_even_int
    using q by (simp add: field_simps)
  have "a < 2 ^ 53 * 2 powi j" by fact
  also have "(2 :: rat) ^ 53 * 2 powi j \<le> 2 ^ 53 * 2 powi 971"
    using j by (simp add: power_int_increasing del: power_int_numeral)
  also have "\<dots> = 2 ^ 1024"
    by simp
  finally have lt: "\<not> 2 ^ 1024 \<le> a" by simp
  show ?thesis
    using False r lt
    by (simp add: round_double_def Let_def a_def [symmetric] k_def [symmetric])
       (simp add: a_def)
qed

lemma round_double_int: "\<bar>n\<bar> < 2 ^ 53 \<Longrightarrow> round_double (of_int n) = Num (of_int n)"
  using round_double_exact [of "of_int n" n 0] by simp

lemma round_double_quarters: "\<bar>n\<bar> < 2 ^ 53 \<Longrightarrow> round_double (of_int n / 4) = Num (of_int n / 4)"
  using round_double_exact [of "of_int n / 4" n "- 2"] by simp




text \<open>The texts \<open>1.0\<close> and \<open>1\<close> are the same number, which is printed as \<open>1\<close>.\<close>

lemma number_value_one: "number_value (js ''1.0'') = Num 1 \<and> number_value (js ''1'') = Num 1"
  using round_double_int [of 1] by (simp add: number_value_def js_def is_digit_def)

lemma shortest_digits_one: "shortest_digits 1 = (1, 1, 1)"
proof -
  have "decimal_exponent 1 = 0"
    by (simp add: decimal_exponent_def ilog10.simps)
  moreover have "round_double 10 = Num 10" "round_double 1 = Num 1" "round_double 2 = Num 2"
    using round_double_int [of 10] round_double_int [of 1] round_double_int [of 2] by simp_all
  moreover have "[1 ..< 18] = 1 # [2 ..< 18]"
    by (simp add: upt_conv_Cons)
  ultimately show ?thesis
    by (simp add: shortest_digits_def digits_candidate_def Let_def)
qed

lemma Number_toString_one: "Number_toString (Num 1) = js ''1''"
  using shortest_digits_one by (simp add: Number_toString_def number_text_def js_def digit_def)

subsection \<open>addClassList and removeClassList\<close>

lemma split_token:
  "\<forall>c \<in> set t. \<not> ascii_whitespace c \<Longrightarrow>
   split_on_ascii_whitespace cur (t @ rest) = split_on_ascii_whitespace (cur @ t) rest"
  by (induction t arbitrary: cur) auto

lemma space_is_whitespace: "ascii_whitespace 0x20" by (simp add: ascii_whitespace_def)

lemma split_serializer:
  "\<forall>t \<in> set ts. valid_token t \<Longrightarrow> split_on_ascii_whitespace [] (ordered_set_serializer ts) = ts"
proof (induction ts rule: ordered_set_serializer.induct)
  case 1
  then show ?case by simp
next
  case (2 token)
  then have "split_on_ascii_whitespace [] (token @ []) = split_on_ascii_whitespace ([] @ token) []"
    by (intro split_token) (simp add: valid_token_def)
  with 2 show ?case by (simp add: valid_token_def)
next
  case (3 token v va)
  have "split_on_ascii_whitespace [] (token @ (0x20 # ordered_set_serializer (v # va)))
        = split_on_ascii_whitespace ([] @ token) (0x20 # ordered_set_serializer (v # va))"
    using 3(2) by (intro split_token) (simp add: valid_token_def)
  with 3 show ?case by (simp add: valid_token_def space_is_whitespace)
qed

lemma split_valid:
  "\<forall>c \<in> set cur. \<not> ascii_whitespace c \<Longrightarrow> t \<in> set (split_on_ascii_whitespace cur s) \<Longrightarrow>
   valid_token t"
proof (induction s arbitrary: cur)
  case Nil
  then show ?case by (auto simp: valid_token_def split: if_splits)
next
  case (Cons a s)
  show ?case
  proof (cases "ascii_whitespace a")
    case True
    with Cons.prems have "t = cur \<and> cur \<noteq> [] \<or> t \<in> set (split_on_ascii_whitespace [] s)"
      by (auto split: if_splits)
    then show ?thesis
    proof
      assume "t = cur \<and> cur \<noteq> []"
      with Cons.prems(1) show ?thesis by (simp add: valid_token_def)
    next
      assume "t \<in> set (split_on_ascii_whitespace [] s)"
      then show ?thesis by (intro Cons.IH [of "[]"]) simp_all
    qed
  next
    case False
    with Cons.prems have "t \<in> set (split_on_ascii_whitespace (cur @ [a]) s)" by simp
    moreover have "\<forall>c \<in> set (cur @ [a]). \<not> ascii_whitespace c"
      using False Cons.prems(1) by simp
    ultimately show ?thesis by (intro Cons.IH [of "cur @ [a]"])
  qed
qed

lemma fold_set_append_subset:
  "set (fold (\<lambda>token tokens. set_append tokens token) ts acc) = set acc \<union> set ts"
  by (induction ts arbitrary: acc) (auto simp: set_append_def)

lemma fold_set_append_distinct:
  "distinct acc \<Longrightarrow> distinct (fold (\<lambda>token tokens. set_append tokens token) ts acc)"
  by (induction ts arbitrary: acc) (auto simp: set_append_def)

lemma fold_set_append_id:
  "distinct (acc @ ts) \<Longrightarrow> fold (\<lambda>token tokens. set_append tokens token) ts acc = acc @ ts"
  by (induction ts arbitrary: acc) (auto simp: set_append_def)

lemma parser_valid: "\<forall>t \<in> set (ordered_set_parser s). valid_token t"
  using split_valid [of "[]" _ s] by (simp add: ordered_set_parser_def fold_set_append_subset)

lemma parser_distinct: "distinct (ordered_set_parser s)"
  by (simp add: ordered_set_parser_def fold_set_append_distinct)

lemma parser_serializer:
  "distinct ts \<Longrightarrow> \<forall>t \<in> set ts. valid_token t \<Longrightarrow> ordered_set_parser (ordered_set_serializer ts) = ts"
  by (simp add: ordered_set_parser_def split_serializer fold_set_append_id)

lemma parser_idem:
  "ordered_set_parser (ordered_set_serializer (ordered_set_parser s)) = ordered_set_parser s"
  by (simp add: parser_serializer parser_valid parser_distinct)

lemma classList_add_empty: "classList_add el [] = Inr (refresh_class el)"
  by (simp add: classList_add_def refresh_class_def)
lemma classList_remove_empty: "classList_remove el [] = Inr (refresh_class el)"
  by (simp add: classList_remove_def refresh_class_def)

lemma token_set_refresh_class: "token_set (refresh_class el) = token_set el"
  by (cases "className el")
     (auto simp: refresh_class_def update_steps_def token_set_def parser_idem)

lemma refresh_class_idem: "refresh_class (refresh_class el) = refresh_class el"
  unfolding refresh_class_def [of "refresh_class el"] token_set_refresh_class
  by (auto simp: refresh_class_def update_steps_def)

lemma refresh_class_serialized:
  "className el = None \<or> className el = Some (ordered_set_serializer (token_set el)) \<Longrightarrow>
   refresh_class el = el"
  by (auto simp: refresh_class_def update_steps_def token_set_def ordered_set_parser_def)

lemma forEach_refresh_class:
  "\<exists>doc'. forEach_element (\<lambda>el. Inr (refresh_class el)) matched doc = (None, doc')
     \<and> length doc' = length doc
     \<and> (\<forall>i < length doc. doc' ! i = (if i \<in> set matched then refresh_class (doc ! i) else doc ! i))"
proof (induction matched arbitrary: doc)
  case Nil
  then show ?case by simp
next
  case (Cons j matched)
  show ?case
  proof (cases "j < length doc")
    case True
    from Cons.IH [of "doc[j := refresh_class (doc ! j)]"]
    obtain doc' where d: "forEach_element (\<lambda>el. Inr (refresh_class el)) matched (doc[j := refresh_class (doc ! j)]) = (None, doc')"
      "length doc' = length doc"
      "\<forall>i < length doc. doc' ! i = (if i \<in> set matched then refresh_class ((doc[j := refresh_class (doc ! j)]) ! i) else (doc[j := refresh_class (doc ! j)]) ! i)"
      by auto
    have "\<forall>i < length doc. doc' ! i = (if i \<in> set (j # matched) then refresh_class (doc ! i) else doc ! i)"
      using d(3) True by (auto simp: nth_list_update refresh_class_idem)
    with d(1,2) True show ?thesis by simp
  next
    case False
    from Cons.IH [of doc] False show ?thesis by auto
  qed
qed


text \<open>
  C8, as the claim states it, fails: with an empty class array, \<open>add\<close> and \<open>remove\<close> still
  run the update steps, and an attribute \<open>"a  b"\<close> (two spaces) is rewritten to
  \<open>"a b"\<close>.
\<close>

theorem classList_empty_counterexample:
  "addClassList select_all [\<lparr>className = Some (js ''a  b'')\<rparr>] (js ''*'') (Some [])
     = (None, [\<lparr>className = Some (js ''a b'')\<rparr>])
   \<and> removeClassList select_all [\<lparr>className = Some (js ''a  b'')\<rparr>] (js ''*'') (Some [])
     = (None, [\<lparr>className = Some (js ''a b'')\<rparr>])
   \<and> js ''a  b'' \<noteq> js ''a b''"
  by (simp add: addClassList_def removeClassList_def select_all_def classList_add_def
      classList_remove_def update_steps_def token_set_def ordered_set_parser_def set_append_def
      js_def ascii_whitespace_def)

text \<open>
  C8, amended. For every selector the engine accepts, \<open>addClassList\<close> and
  \<open>removeClassList\<close> with an empty class array raise no error, leave the token set of
  every element as it was and leave every unmatched element untouched; the class
  attribute of a matched element is unchanged when it is absent or already the
  serialisation of its token set (tokens separated by single spaces, no repeats, no
  whitespace around them).
\<close>

theorem classList_empty_keeps_tokens:
  assumes "querySelectorAll doc selector = Inr matched"
  shows "\<exists>doc'. addClassList querySelectorAll doc selector (Some []) = (None, doc')
      \<and> removeClassList querySelectorAll doc selector (Some []) = (None, doc')
      \<and> length doc' = length doc
      \<and> (\<forall>i < length doc.
            token_set (doc' ! i) = token_set (doc ! i)
          \<and> (i \<notin> set matched \<longrightarrow> doc' ! i = doc ! i)
          \<and> (className (doc ! i) = None
               \<or> className (doc ! i) = Some (ordered_set_serializer (token_set (doc ! i)))
             \<longrightarrow> doc' ! i = doc ! i))"
proof -
  obtain doc' where d: "forEach_element (\<lambda>el. Inr (refresh_class el)) matched doc = (None, doc')"
    "length doc' = length doc"
    "\<forall>i < length doc. doc' ! i = (if i \<in> set matched then refresh_class (doc ! i) else doc ! i)"
    using forEach_refresh_class [of matched doc] by blast
  have "addClassList querySelectorAll doc selector (Some []) = (None, doc')"
    using assms d(1) by (simp add: addClassList_def classList_add_empty)
  moreover have "removeClassList querySelectorAll doc selector (Some []) = (None, doc')"
    using assms d(1) by (simp add: removeClassList_def classList_remove_empty)
  moreover have "\<forall>i < length doc.
            token_set (doc' ! i) = token_set (doc ! i)
          \<and> (i \<notin> set matched \<longrightarrow> doc' ! i = doc ! i)
          \<and> (className (doc ! i) = None
               \<or> className (doc ! i) = Some (ordered_set_serializer (token_set (doc ! i)))
             \<longrightarrow> doc' ! i = doc ! i)"
    using d(3) by (simp add: token_set_refresh_class refresh_class_serialized)
  ultimately show ?thesis using d(2) by blast
qed

theorem classList_empty_keeps_tokens_witness:
  "select_all [\<lparr>className = Some (js ''a b'')\<rparr>, \<lparr>className = None\<rparr>] (js ''*'') = Inr [0, 1]
   \<and> addClassList select_all [\<lparr>className = Some (js ''a b'')\<rparr>, \<lparr>className = None\<rparr>]
        (js ''*'') (Some [])
      = (None, [\<lparr>className = Some (js ''a b'')\<rparr>, \<lparr>className = None\<rparr>])"
proof -
  let ?doc = "[\<lparr>className = Some (js ''a b'')\<rparr>, \<lparr>className = None\<rparr>]"
  have m: "select_all ?doc (js ''*'') = Inr [0, 1]"
    by (simp add: select_all_def upt_rec)
  have s: "className (?doc ! 0) = Some (ordered_set_serializer (token_set (?doc ! 0)))"
    by (simp add: token_set_def ordered_set_parser_def set_append_def js_def ascii_whitespace_def)
  obtain doc' where d: "addClassList select_all ?doc (js ''*'') (Some []) = (None, doc')"
    "length doc' = length ?doc"
    "\<forall>i < length ?doc. (className (?doc ! i) = None
               \<or> className (?doc ! i) = Some (ordered_set_serializer (token_set (?doc ! i)))
             \<longrightarrow> doc' ! i = ?doc ! i)"
    using classList_empty_keeps_tokens [of select_all ?doc "js ''*''" "[0, 1]"] m by blast
  have "doc' ! 0 = ?doc ! 0" using d(3) s by auto
  moreover have "doc' ! 1 = ?doc ! 1" using d(3) by auto
  ultimately have "doc' = ?doc"
    using d(2) by (intro nth_equalityI) (auto simp: less_Suc_eq)
  with m d(1) show ?thesis by simp
qed

subsection \<open>loadStylesheetCSSInWebview\<close>

lemmas json_eval =
  JSON_parse_def cons_token_def json_whitespace_def is_digit_def number_char_def
  json_number_def json_integer_def json_fraction_def json_exponent_def digits1_def
  hex_value_def begin_value_def begin_member_def after_value_def object_put_def

lemmas stringify_eval =
  QuoteJSONString_def quote_unit_def unicode_escape_def hex_digit_def high_surrogate_def
  low_surrogate_def

lemmas inject_eval =
  loadStylesheetCSSInWebview_def readStylesheet_def onClose_def append_chunk_def
  run_write_script_def new_Set_def Set_add_def trim_def js_whitespace_def
  previously_injected_def is_octal_def utf16_def Let_def

lemma JSON_parse_empty: "JSON_parse [] = Inl SyntaxError"
  by (simp add: JSON_parse_def)

text \<open>
  A registry that holds the same number twice, as \<open>1.0\<close> and as \<open>1\<close>, is written back
  with one entry \<open>1\<close>. The members of an object are written with the array indices
  first.
\<close>

lemma number_printed_by_value:
  \<open>JSON_parse (js ''[1.0,1]'') = Inr (JArray [JNumber (Num 1), JNumber (Num 1)])
   \<and> JSON_stringify (JArray (new_Set [JNumber (Num 1), JNumber (Num 1)])) = js ''[1]''\<close>
proof -
  have \<open>JSON_parse (js ''[1.0,1]'') = Inr (JArray [JNumber (Num 1), JNumber (Num 1)])\<close>
    using number_value_one by (simp add: json_eval js_def)
  moreover have "JSON_stringify (JArray (new_Set [JNumber (Num 1), JNumber (Num 1)])) = js ''[1]''"
    using Number_toString_one by (simp add: new_Set_def Set_add_def js_def)
  ultimately show ?thesis by simp
qed

lemma members_in_key_order:
  \<open>JSON_stringify (JObject [(js ''b'', JNull), (js ''2'', JNull), (js ''a'', JNull), (js ''1'', JNull)])
     = js ''{"1":null,"2":null,"b":null,"a":null}''\<close>
  by (simp add: own_property_order_def array_index_def digits1_def is_digit_def List.map_filter_def
      stringify_eval js_def)

lemma join_throws_strings: "\<not> join_throws (map JString paths)"
  by (auto simp: join_throws_def)

text \<open>
  C1, as the claim states it, fails: the registry \<open>[{"toString":null},"a.css"]\<close> holds
  the path \<open>a.css\<close>, but \<open>join\<close> cannot convert its first entry to a string and
  throws before \<open>includes\<close> is reached, so the callback receives a TypeError and not
  the error that names the path.
\<close>

theorem unconvertible_registry_entry_counterexample:
  \<open>JSON_parse (js ''[{"toString":null},"a.css"]'')
      = Inr (JArray [JObject [(js ''toString'', JNull)], JString (js ''a.css'')])
   \<and> JString (js ''a.css'') \<in> set [JObject [(js ''toString'', JNull)], JString (js ''a.css'')]
   \<and> loadStylesheetCSSInWebview example_host
        \<lparr>injectedstylesheets = Some (js ''[{"toString":null},"a.css"]''), insertedCSS = []\<rparr>
        (js ''a.css'')
      = (\<lparr>injectedstylesheets = Some (js ''[{"toString":null},"a.css"]''), insertedCSS = []\<rparr>,
         [ExecuteJavaScript read_script, Callback (Some TypeError) None])\<close>
proof -
  have p: \<open>JSON_parse (js ''[{"toString":null},"a.css"]'')
             = Inr (JArray [JObject [(js ''toString'', JNull)], JString (js ''a.css'')])\<close>
    by (simp add: json_eval js_def)
  have j: "join_throws [JObject [(js ''toString'', JNull)], JString (js ''a.css'')]"
    by (simp add: join_throws_def)
  have n: \<open>js ''[{"toString":null},"a.css"]'' \<noteq> []\<close>
    by (simp add: js_def)
  have \<open>loadStylesheetCSSInWebview example_host
        \<lparr>injectedstylesheets = Some (js ''[{"toString":null},"a.css"]''), insertedCSS = []\<rparr>
        (js ''a.css'')
      = (\<lparr>injectedstylesheets = Some (js ''[{"toString":null},"a.css"]''), insertedCSS = []\<rparr>,
         [ExecuteJavaScript read_script, Callback (Some TypeError) None])\<close>
    using p j n by (simp add: loadStylesheetCSSInWebview_def example_host_def)
  with p show ?thesis by simp
qed

text \<open>
  C1, amended. When the first remote call resolves with a registry text that parses to
  an array holding the path, the function stops there: the webview is as it was, and the
  only effects are the first script and one call of the callback with an error. No
  stream is opened, the minifier does not run and nothing is inserted. The error is
  "stylesheet was previously injected from path: P" when every entry of the array can be
  converted to a string, as the strings of a registry the library wrote can, and a
  TypeError when some entry cannot.
\<close>

theorem already_injected_fails_immediately:
  assumes "readFault h = None"
      and "injectedstylesheets webviewElement = Some result"
      and "JSON_parse result = Inr (JArray stylesheetPathList)"
      and "JString stylesheetPath \<in> set stylesheetPathList"
  shows "loadStylesheetCSSInWebview h webviewElement stylesheetPath =
           (webviewElement,
            [ExecuteJavaScript read_script,
             Callback (Some (if join_throws stylesheetPathList then TypeError
                             else Error (js ''stylesheet was previously injected from path: ''
                                         @ stylesheetPath))) None])"
proof -
  have "result \<noteq> []"
    using assms(3) JSON_parse_empty by auto
  then show ?thesis
    using assms by (simp add: loadStylesheetCSSInWebview_def previously_injected_def)
qed

theorem already_injected_fails_immediately_witness:
  \<open>readFault example_host = None
   \<and> JSON_parse (js ''["a.css","b.css"]'') = Inr (JArray [JString (js ''a.css''), JString (js ''b.css'')])
   \<and> JString (js ''b.css'') \<in> set [JString (js ''a.css''), JString (js ''b.css'')]
   \<and> \<not> join_throws [JString (js ''a.css''), JString (js ''b.css'')]
   \<and> loadStylesheetCSSInWebview example_host
        \<lparr>injectedstylesheets = Some (js ''["a.css","b.css"]''), insertedCSS = []\<rparr> (js ''b.css'')
      = (\<lparr>injectedstylesheets = Some (js ''["a.css","b.css"]''), insertedCSS = []\<rparr>,
         [ExecuteJavaScript read_script,
          Callback (Some (Error (js ''stylesheet was previously injected from path: b.css''))) None])\<close>
proof -
  have f: "readFault example_host = None"
    by (simp add: example_host_def)
  have p: \<open>JSON_parse (js ''["a.css","b.css"]'')
             = Inr (JArray [JString (js ''a.css''), JString (js ''b.css'')])\<close>
    by (simp add: json_eval js_def)
  have j: "\<not> join_throws [JString (js ''a.css''), JString (js ''b.css'')]"
    by (simp add: join_throws_def)
  show ?thesis
    using f p j
      already_injected_fails_immediately [OF f _ p,
        of \<open>\<lparr>injectedstylesheets = Some (js ''["a.css","b.css"]''), insertedCSS = []\<rparr>\<close> \<open>js ''b.css''\<close>]
    by (simp add: js_def)
qed

text \<open>
  What the data listener collects: from \<open>undefined\<close>, the chunks \<open>c1 .. cn\<close> leave the
  buffer holding \<open>"undefined"\<close> and then the chunks.
\<close>

lemma data_events_append:
  "streamHandlers h p (map Data chunks @ events) pathList (Some buffer) wv
     = streamHandlers h p events pathList (Some (buffer @ concat chunks)) wv"
  by (induction chunks arbitrary: buffer) (simp_all add: append_chunk_def)

lemma data_events_from_undefined:
  assumes "chunks \<noteq> []"
  shows "streamHandlers h p (map Data chunks @ events) pathList None wv
           = streamHandlers h p events pathList (Some (js ''undefined'' @ concat chunks)) wv"
proof -
  obtain c cs where "chunks = c # cs"
    using assms by (cases chunks) auto
  then show ?thesis
    using data_events_append [of h p cs events pathList "js ''undefined'' @ c" wv]
    by (simp add: append_chunk_def)
qed

text \<open>
  C2. A file read as the chunks \<open>"a{}"\<close> and \<open>"b{} "\<close>: the claim has the minifier
  receive \<open>"a{}b{}"\<close> and the line terminator. It receives \<open>"undefineda{}b{}"\<close> and the
  line terminator, because the buffer is never given an initial value.
\<close>

theorem minifier_text_has_undefined_prefix:
  \<open>fileStream example_host (js ''a.css'') = [Data (js ''a{}''), Data (js ''b{} ''), Close]
   \<and> trim (js ''a{}'' @ js ''b{} '') @ EOL example_host = js ''a{}b{}'' @ [0x0A]
   \<and> snd (loadStylesheetCSSInWebview example_host fresh_webview (js ''a.css''))
      = [ExecuteJavaScript read_script, CreateReadStream (js ''a.css''),
         Minify (js ''undefineda{}b{}'' @ [0x0A]), InsertCSS (js ''undefineda{}b{}'' @ [0x0A]),
         ExecuteJavaScript (write_script (js ''["a.css"]'')),
         Callback None (Some (js ''undefineda{}b{}'' @ [0x0A]))]\<close>
  by (simp add: inject_eval stringify_eval example_host_def fresh_webview_def js_def)

text \<open>
  C3. The stream gives one chunk, then an error, then \<open>close\<close>, which is what a read
  stream opened with \<open>autoClose\<close> and \<open>emitClose\<close> does after an error. The callback is
  called with the error, and then the close listener goes on: the minifier runs on what
  was read, the result is inserted, the registry is written and the callback is called a
  second time, with success.
\<close>

theorem read_error_does_not_abort:
  \<open>fileStream failing_host (js ''a.css'')
      = [Data (js ''a{}''), StreamError (HostError (js ''EIO'')), Close]
   \<and> loadStylesheetCSSInWebview failing_host fresh_webview (js ''a.css'')
      = (\<lparr>injectedstylesheets = Some (js ''["a.css"]''),
          insertedCSS = [js ''undefineda{}'' @ [0x0A]]\<rparr>,
         [ExecuteJavaScript read_script, CreateReadStream (js ''a.css''),
          Callback (Some (HostError (js ''EIO''))) None,
          Minify (js ''undefineda{}'' @ [0x0A]), InsertCSS (js ''undefineda{}'' @ [0x0A]),
          ExecuteJavaScript (write_script (js ''["a.css"]'')),
          Callback None (Some (js ''undefineda{}'' @ [0x0A]))])\<close>
  by (simp add: inject_eval stringify_eval failing_host_def example_host_def fresh_webview_def js_def)

text \<open>
  When the stream fails before any chunk, the close listener finds the buffer
  \<open>undefined\<close> and throws.
\<close>

lemma read_error_without_data:
  "streamHandlers h p [StreamError e, Close] pathList None wv
     = (wv, [Callback (Some e) None, Uncaught TypeError])"
  by (simp add: onClose_def)

text \<open>
  C4, as the claim states it, fails: an attribute that is present and empty is not
  parseable as JSON, yet the function does not parse it; it reads the file and injects.
\<close>

theorem empty_registry_attribute_counterexample:
  \<open>JSON_parse [] = Inl SyntaxError
   \<and> loadStylesheetCSSInWebview example_host (fresh_webview\<lparr>injectedstylesheets := Some []\<rparr>)
        (js ''a.css'')
      = (\<lparr>injectedstylesheets = Some (js ''["a.css"]''),
          insertedCSS = [js ''undefineda{}b{}'' @ [0x0A]]\<rparr>,
         [ExecuteJavaScript read_script, CreateReadStream (js ''a.css''),
          Minify (js ''undefineda{}b{}'' @ [0x0A]), InsertCSS (js ''undefineda{}b{}'' @ [0x0A]),
          ExecuteJavaScript (write_script (js ''["a.css"]'')),
          Callback None (Some (js ''undefineda{}b{}'' @ [0x0A]))])\<close>
  by (simp add: JSON_parse_empty inject_eval stringify_eval example_host_def fresh_webview_def js_def)

text \<open>
  C4, amended. If the first remote call resolves with a registry attribute that is
  present, not empty and not parseable as JSON, the function calls the callback with the
  parse error and does nothing else: no file is read, nothing is minified or inserted,
  and the webview is as it was. An attribute that is present but empty is treated like
  an absent one: in both cases nothing is parsed, the stream of the file is opened, and
  its listeners run with an empty list of registered paths.
\<close>

theorem unparsable_registry_fails:
  assumes "readFault h = None"
  shows "(injectedstylesheets webviewElement = Some result \<and> result \<noteq> []
            \<and> JSON_parse result = Inl exception
          \<longrightarrow> loadStylesheetCSSInWebview h webviewElement stylesheetPath =
                (webviewElement, [ExecuteJavaScript read_script, Callback (Some exception) None]))
       \<and> (injectedstylesheets emptyElement = Some [] \<or> injectedstylesheets emptyElement = None
          \<longrightarrow> loadStylesheetCSSInWebview h emptyElement stylesheetPath =
                (fst (streamHandlers h stylesheetPath (fileStream h stylesheetPath) [] None emptyElement),
                 ExecuteJavaScript read_script # CreateReadStream stylesheetPath
                   # snd (streamHandlers h stylesheetPath (fileStream h stylesheetPath) [] None
                           emptyElement)))"
  using assms
  by (auto simp: loadStylesheetCSSInWebview_def readStylesheet_def split: prod.splits)

theorem unparsable_registry_fails_witness:
  \<open>readFault example_host = None
   \<and> js ''["a.css"'' \<noteq> []
   \<and> JSON_parse (js ''["a.css"'') = Inl SyntaxError
   \<and> loadStylesheetCSSInWebview example_host
        \<lparr>injectedstylesheets = Some (js ''["a.css"''), insertedCSS = []\<rparr> (js ''b.css'')
      = (\<lparr>injectedstylesheets = Some (js ''["a.css"''), insertedCSS = []\<rparr>,
         [ExecuteJavaScript read_script, Callback (Some SyntaxError) None])
   \<and> loadStylesheetCSSInWebview example_host
        \<lparr>injectedstylesheets = Some [], insertedCSS = []\<rparr> (js ''b.css'')
      = (fst (streamHandlers example_host (js ''b.css'') [Data (js ''a{}''), Data (js ''b{} ''), Close]
               [] None \<lparr>injectedstylesheets = Some [], insertedCSS = []\<rparr>),
         ExecuteJavaScript read_script # CreateReadStream (js ''b.css'')
           # snd (streamHandlers example_host (js ''b.css'') [Data (js ''a{}''), Data (js ''b{} ''), Close]
                   [] None \<lparr>injectedstylesheets = Some [], insertedCSS = []\<rparr>))
   \<and> loadStylesheetCSSInWebview example_host
        \<lparr>injectedstylesheets = None, insertedCSS = []\<rparr> (js ''b.css'')
      = (fst (streamHandlers example_host (js ''b.css'') [Data (js ''a{}''), Data (js ''b{} ''), Close]
               [] None \<lparr>injectedstylesheets = None, insertedCSS = []\<rparr>),
         ExecuteJavaScript read_script # CreateReadStream (js ''b.css'')
           # snd (streamHandlers example_host (js ''b.css'') [Data (js ''a{}''), Data (js ''b{} ''), Close]
                   [] None \<lparr>injectedstylesheets = None, insertedCSS = []\<rparr>))\<close>
proof -
  have f: "readFault example_host = None"
    by (simp add: example_host_def)
  have s: "fileStream example_host (js ''b.css'') = [Data (js ''a{}''), Data (js ''b{} ''), Close]"
    by (simp add: example_host_def)
  have n: \<open>js ''["a.css"'' \<noteq> []\<close>
    by (simp add: js_def)
  have p: \<open>JSON_parse (js ''["a.css"'') = Inl SyntaxError\<close>
    by (simp add: json_eval js_def)
  show ?thesis
    using f n p
      unparsable_registry_fails [OF f,
        of \<open>\<lparr>injectedstylesheets = Some (js ''["a.css"''), insertedCSS = []\<rparr>\<close>
           \<open>js ''["a.css"''\<close> SyntaxError \<open>js ''b.css''\<close>
           \<open>\<lparr>injectedstylesheets = Some [], insertedCSS = []\<rparr>\<close>]
      unparsable_registry_fails [OF f,
        of \<open>\<lparr>injectedstylesheets = Some (js ''["a.css"''), insertedCSS = []\<rparr>\<close>
           \<open>js ''["a.css"''\<close> SyntaxError \<open>js ''b.css''\<close>
           \<open>\<lparr>injectedstylesheets = None, insertedCSS = []\<rparr>\<close>]
    by (simp add: s)
qed

text \<open>
  For paths made of safe code units the registry does what C5 says: the text written
  back is read back as the same list.
\<close>

lemma quote_unit_safe: "safe_unit c \<Longrightarrow> quote_unit c = [c]"
  by (auto simp: safe_unit_def quote_unit_def)

lemma quote_units_safe: "\<forall>c \<in> set s. safe_unit c \<Longrightarrow> quote_units s = s"
proof (induction s rule: quote_units.induct)
  case 1
  then show ?case by simp
next
  case (2 c)
  then show ?case by (simp add: quote_unit_safe)
next
  case (3 c d cs)
  then have "\<not> high_surrogate c" by (simp add: safe_unit_def)
  with 3 show ?case by (simp add: quote_unit_safe)
qed

lemma string_literal_plain:
  "\<forall>c \<in> set s. plain_unit c \<Longrightarrow> string_literal_value acc s = Inr (acc @ s, None)"
  by (induction s arbitrary: acc) (auto simp: plain_unit_def)

lemma safe_plain: "safe_unit c \<Longrightarrow> plain_unit c"
  by (auto simp: safe_unit_def plain_unit_def)

lemma plain_join:
  "\<forall>c \<in> set sep. plain_unit c \<Longrightarrow> \<forall>s \<in> set items. \<forall>c \<in> set s. plain_unit c \<Longrightarrow>
   \<forall>c \<in> set (join_with sep items). plain_unit c"
  by (induction sep items rule: join_with.induct) auto

lemma plain_registry_text:
  assumes "\<forall>p \<in> set paths. safe_path p"
  shows "\<forall>c \<in> set (registry_text paths). plain_unit c"
proof -
  have q: "\<forall>s \<in> set (map JSON_stringify (map JString paths)). \<forall>c \<in> set s. plain_unit c"
    using assms
    by (auto simp: QuoteJSONString_def quote_units_safe safe_path_def safe_plain)
       (simp_all add: plain_unit_def)
  have "\<forall>c \<in> set (join_with [0x2C] (map JSON_stringify (map JString paths))). plain_unit c"
    by (rule plain_join [OF _ q]) (simp add: plain_unit_def)
  then show ?thesis
    by (auto simp: registry_text_def plain_unit_def)
qed

lemma join_with_Cons: "join_with sep (x # xs) = x @ concat (map (\<lambda>y. sep @ y) xs)"
  by (induction xs arbitrary: x) simp_all

lemma lex_string_safe:
  "\<forall>c \<in> set s. safe_unit c \<Longrightarrow>
   lex_string acc (s @ 0x22 # rest) = cons_token (TString (acc @ s)) (lex rest)"
proof (induction s arbitrary: acc)
  case Nil
  then show ?case by simp
next
  case (Cons c s)
  then have c: "c \<noteq> 0x22" "c \<noteq> 0x5C" "\<not> c < 0x20"
    by (auto simp: safe_unit_def)
  from Cons have "lex_string (acc @ [c]) (s @ 0x22 # rest) = cons_token (TString ((acc @ [c]) @ s)) (lex rest)"
    by simp
  with c show ?case by simp
qed

lemma lex_quoted:
  "safe_path p \<Longrightarrow> lex (QuoteJSONString p @ rest) = cons_token (TString p) (lex rest)"
  using lex_string_safe [of p "[]" rest]
  by (simp add: QuoteJSONString_def quote_units_safe safe_path_def json_whitespace_def)

lemma lex_more:
  "\<forall>p \<in> set ps. safe_path p \<Longrightarrow>
   lex (concat (map (\<lambda>p. 0x2C # QuoteJSONString p) ps) @ rest)
     = map_option ((@) (more_tokens ps)) (lex rest)"
proof (induction ps)
  case Nil
  then show ?case by (simp add: more_tokens_def option.map_ident)
next
  case (Cons p ps)
  then have "lex (QuoteJSONString p @ concat (map (\<lambda>p. 0x2C # QuoteJSONString p) ps) @ rest)
      = cons_token (TString p) (map_option ((@) (more_tokens ps)) (lex rest))"
    by (simp add: lex_quoted)
  then show ?case
    by (simp add: json_whitespace_def cons_token_def more_tokens_def option.map_comp comp_def)
qed

lemma lex_registry_text:
  assumes "\<forall>p \<in> set paths. safe_path p"
  shows "lex (registry_text paths)
           = Some (TLBracket # (case paths of [] \<Rightarrow> [] | p # ps \<Rightarrow> TString p # more_tokens ps) @ [TRBracket])"
proof (cases paths)
  case Nil
  then show ?thesis
    by (simp add: registry_text_def json_whitespace_def cons_token_def)
next
  case (Cons p ps)
  have r: "lex [0x5D] = Some [TRBracket]"
    by (simp add: json_whitespace_def cons_token_def)
  have "lex (QuoteJSONString p @ concat (map (\<lambda>p. 0x2C # QuoteJSONString p) ps) @ [0x5D])
          = Some (TString p # more_tokens ps @ [TRBracket])"
    using assms Cons by (simp add: lex_quoted lex_more json_whitespace_def cons_token_def)
  then show ?thesis
    using Cons
    by (simp add: registry_text_def join_with_Cons json_whitespace_def cons_token_def comp_def)
qed

lemma parse_more:
  "parse_tokens ([ArrayFrame vs], ExpectCommaOrClose) (more_tokens ps @ [TRBracket])
     = Some ([], ExpectEnd (JArray (vs @ map JString ps)))"
proof (induction ps arbitrary: vs)
  case Nil
  then show ?case by (simp add: more_tokens_def after_value_def)
next
  case (Cons p ps)
  from Cons [of "vs @ [JString p]"] show ?case
    by (simp add: more_tokens_def after_value_def begin_value_def)
qed

lemma JSON_parse_registry_text:
  assumes "\<forall>p \<in> set paths. safe_path p"
  shows "JSON_parse (registry_text paths) = Inr (JArray (map JString paths))"
proof (cases paths)
  case Nil
  then show ?thesis
    using lex_registry_text [OF assms] by (simp add: JSON_parse_def begin_value_def)
next
  case (Cons p ps)
  then show ?thesis
    using lex_registry_text [OF assms] parse_more [of "[JString p]" ps]
    by (simp add: JSON_parse_def begin_value_def)
qed

lemma write_registry_text:
  assumes "\<forall>p \<in> set paths. safe_path p"
  shows "run_write_script h wv (registry_text paths)
           = Inr (wv\<lparr>injectedstylesheets := Some (registry_text paths)\<rparr>)"
  using string_literal_plain [OF plain_registry_text [OF assms], of "[]"]
  by (simp add: run_write_script_def)

lemma Set_add_strings:
  "Set_add (map JString qs) (JString p) = (if p \<in> set qs then map JString qs else map JString (qs @ [p]))"
  by (auto simp: Set_add_def)

lemma fold_Set_add_strings:
  "distinct (qs @ ps) \<Longrightarrow>
   fold (\<lambda>v items. Set_add items v) (map JString ps) (map JString qs) = map JString (qs @ ps)"
proof (induction ps arbitrary: qs)
  case Nil
  then show ?case by simp
next
  case (Cons p ps)
  then have "distinct ((qs @ [p]) @ ps)" "p \<notin> set qs" by auto
  with Cons.IH [of "qs @ [p]"] show ?case
    by (simp add: Set_add_strings)
qed

lemma new_Set_strings: "distinct ps \<Longrightarrow> new_Set (map JString ps) = map JString ps"
  using fold_Set_add_strings [of "[]" ps] by (simp add: new_Set_def)

lemma registry_text_not_empty: "registry_text qs \<noteq> []"
  by (simp add: registry_text_def)

lemma onClose_clean:
  assumes "no_faults h"
      and "\<forall>q \<in> set (qs @ [p]). safe_path q" "distinct (qs @ [p])"
  shows "onClose h p (map JString qs) (Some buffer) wv
           = (wv\<lparr>insertedCSS := insertedCSS wv @ [minifyStyles h (trim buffer @ EOL h)],
                 injectedstylesheets := Some (registry_text (qs @ [p]))\<rparr>,
              map JString (qs @ [p]),
              [Minify (trim buffer @ EOL h), InsertCSS (minifyStyles h (trim buffer @ EOL h)),
               ExecuteJavaScript (write_script (registry_text (qs @ [p]))),
               Callback None (Some (minifyStyles h (trim buffer @ EOL h)))])"
proof -
  have n: "new_Set (map JString qs @ [JString p]) = map JString (qs @ [p])"
    using new_Set_strings [OF assms(3)] by simp
  have w: "run_write_script h wv' (registry_text (qs @ [p]))
             = Inr (wv'\<lparr>injectedstylesheets := Some (registry_text (qs @ [p]))\<rparr>)" for wv'
    by (rule write_registry_text [OF assms(2)])
  have t: "JSON_stringify (JArray (map JString (qs @ [p]))) = registry_text (qs @ [p])"
    by (simp add: registry_text_def)
  show ?thesis
    unfolding onClose_def Let_def n t
    using assms(1) by (simp add: no_faults_def w)
qed

lemma readStylesheet_clean:
  assumes "no_faults h" "reads_cleanly h p"
      and "\<forall>q \<in> set (qs @ [p]). safe_path q" "distinct (qs @ [p])"
  shows "injectedstylesheets (fst (readStylesheet h wv p (map JString qs)))
           = Some (registry_text (qs @ [p]))
       \<and> succeeded (snd (readStylesheet h wv p (map JString qs)))"
proof -
  obtain chunks where c: "chunks \<noteq> []" "fileStream h p = map Data chunks @ [Close]"
    using assms(2) by (auto simp: reads_cleanly_def)
  have "streamHandlers h p (map Data chunks @ [Close]) (map JString qs) None wv
          = streamHandlers h p [Close] (map JString qs) (Some (js ''undefined'' @ concat chunks)) wv"
    by (rule data_events_from_undefined [OF c(1)])
  then show ?thesis
    by (simp add: readStylesheet_def c(2) onClose_clean [OF assms(1,3,4)] succeeded_def)
qed

lemma load_clean:
  assumes "no_faults h" "reads_cleanly h p"
      and "\<forall>q \<in> set (qs @ [p]). safe_path q" "distinct (qs @ [p])"
      and "injectedstylesheets wv = (if qs = [] then None else Some (registry_text qs))"
  shows "injectedstylesheets (fst (loadStylesheetCSSInWebview h wv p))
           = Some (registry_text (qs @ [p]))
       \<and> succeeded (snd (loadStylesheetCSSInWebview h wv p))"
proof -
  have r: "loadStylesheetCSSInWebview h wv p =
             (fst (readStylesheet h wv p (map JString qs)),
              ExecuteJavaScript read_script # snd (readStylesheet h wv p (map JString qs)))"
  proof (cases "qs = []")
    case True
    then show ?thesis
      using assms(1,5)
      by (simp add: loadStylesheetCSSInWebview_def no_faults_def split: prod.splits)
  next
    case False
    have "JSON_parse (registry_text qs) = Inr (JArray (map JString qs))"
      using assms(3) by (intro JSON_parse_registry_text) simp
    moreover have "JString p \<notin> set (map JString qs)"
      using assms(4) by auto
    ultimately show ?thesis
      using False assms(1,5) registry_text_not_empty [of qs] join_throws_strings [of qs]
      by (simp add: loadStylesheetCSSInWebview_def no_faults_def split: prod.splits)
  qed
  show ?thesis
    using readStylesheet_clean [OF assms(1-4), of wv]
    by (simp add: r succeeded_def)
qed

lemma inject_all_clean:
  assumes "no_faults h" "\<forall>p \<in> set ps. reads_cleanly h p"
      and "\<forall>q \<in> set (qs @ ps). safe_path q" "distinct (qs @ ps)"
      and "injectedstylesheets wv = (if qs = [] then None else Some (registry_text qs))"
  shows "injectedstylesheets (fst (inject_all h wv ps))
           = (if qs @ ps = [] then None else Some (registry_text (qs @ ps)))
       \<and> length (snd (inject_all h wv ps)) = length ps
       \<and> (\<forall>effects \<in> set (snd (inject_all h wv ps)). succeeded effects)"
  using assms(2-)
proof (induction ps arbitrary: qs wv)
  case Nil
  then show ?case by simp
next
  case (Cons p ps)
  let ?wv1 = "fst (loadStylesheetCSSInWebview h wv p)"
  have l: "injectedstylesheets ?wv1 = Some (registry_text (qs @ [p]))"
    "succeeded (snd (loadStylesheetCSSInWebview h wv p))"
    using load_clean [OF assms(1), of p qs wv] Cons.prems by simp_all
  have "injectedstylesheets (fst (inject_all h ?wv1 ps))
               = (if (qs @ [p]) @ ps = [] then None else Some (registry_text ((qs @ [p]) @ ps)))
       \<and> length (snd (inject_all h ?wv1 ps)) = length ps
       \<and> (\<forall>effects \<in> set (snd (inject_all h ?wv1 ps)). succeeded effects)"
    using Cons.prems l(1) by (intro Cons.IH) simp_all
  with l(2) show ?case by (simp add: split_beta)
qed

text \<open>
  Injecting any number of distinct safe paths, in any order, into a fresh document on a
  host without faults: every call succeeds, and the attribute then parses to exactly
  those paths, in the order of the calls.
\<close>

lemma safe_paths_round_trip:
  assumes "no_faults h" "\<forall>p \<in> set ps. reads_cleanly h p"
      and "\<forall>p \<in> set ps. safe_path p" "distinct ps" "ps \<noteq> []"
  shows "\<exists>result. injectedstylesheets (fst (inject_all h fresh_webview ps)) = Some result
                 \<and> JSON_parse result = Inr (JArray (map JString ps))
                 \<and> length (snd (inject_all h fresh_webview ps)) = length ps
                 \<and> (\<forall>effects \<in> set (snd (inject_all h fresh_webview ps)). succeeded effects)"
  using inject_all_clean [OF assms(1,2), of "[]" fresh_webview] assms(3-)
    JSON_parse_registry_text [OF assms(3)]
  by (simp add: fresh_webview_def)

text \<open>
  An apostrophe in a path ends the string literal of the script early: for the path
  \<open>x';'y\<close> the webview is sent a script of two statements, and what that does is up to
  its engine.
\<close>

lemma apostrophe_ends_literal:
  \<open>string_literal_value [] (js ''["x';'y"]'') = Inr (js ''["x'', Some (js '';'y"]''))
   \<and> run_write_script h wv (js ''["x';'y"]'') = runScript h wv (write_script (js ''["x';'y"]''))\<close>
  by (simp add: run_write_script_def js_def)

text \<open>
  C5. One injection of the path \<open>C:\app.css\<close> (written here with \<open>BACKSLASH\<close>) into a
  fresh document succeeds. \<^verbatim>\<open>JSON.stringify\<close> doubles the backslash, the string literal
  of the script halves it again, and the attribute ends up holding a text that is not
  JSON: parsing it gives a syntax error instead of the path, and the next injection, of
  any path, fails on it.
\<close>

theorem backslash_path_breaks_registry:
  \<open>loadStylesheetCSSInWebview example_host fresh_webview (js ''C:'' @ [BACKSLASH] @ js ''app.css'')
      = (\<lparr>injectedstylesheets = Some (js ''["C:'' @ [BACKSLASH] @ js ''app.css"]''),
          insertedCSS = [js ''undefineda{}b{}'' @ [0x0A]]\<rparr>,
         [ExecuteJavaScript read_script,
          CreateReadStream (js ''C:'' @ [BACKSLASH] @ js ''app.css''),
          Minify (js ''undefineda{}b{}'' @ [0x0A]), InsertCSS (js ''undefineda{}b{}'' @ [0x0A]),
          ExecuteJavaScript (write_script (js ''["C:'' @ [BACKSLASH, BACKSLASH] @ js ''app.css"]'')),
          Callback None (Some (js ''undefineda{}b{}'' @ [0x0A]))])
   \<and> JSON_parse (js ''["C:'' @ [BACKSLASH] @ js ''app.css"]'') = Inl SyntaxError
   \<and> loadStylesheetCSSInWebview example_host
        \<lparr>injectedstylesheets = Some (js ''["C:'' @ [BACKSLASH] @ js ''app.css"]''),
         insertedCSS = [js ''undefineda{}b{}'' @ [0x0A]]\<rparr> (js ''b.css'')
      = (\<lparr>injectedstylesheets = Some (js ''["C:'' @ [BACKSLASH] @ js ''app.css"]''),
          insertedCSS = [js ''undefineda{}b{}'' @ [0x0A]]\<rparr>,
         [ExecuteJavaScript read_script, Callback (Some SyntaxError) None])\<close>
proof -
  have p: \<open>JSON_parse (js ''["C:'' @ [BACKSLASH] @ js ''app.css"]'') = Inl SyntaxError\<close>
    by (simp add: json_eval js_def BACKSLASH_def)
  have first: \<open>loadStylesheetCSSInWebview example_host fresh_webview
                  (js ''C:'' @ [BACKSLASH] @ js ''app.css'')
      = (\<lparr>injectedstylesheets = Some (js ''["C:'' @ [BACKSLASH] @ js ''app.css"]''),
          insertedCSS = [js ''undefineda{}b{}'' @ [0x0A]]\<rparr>,
         [ExecuteJavaScript read_script,
          CreateReadStream (js ''C:'' @ [BACKSLASH] @ js ''app.css''),
          Minify (js ''undefineda{}b{}'' @ [0x0A]), InsertCSS (js ''undefineda{}b{}'' @ [0x0A]),
          ExecuteJavaScript (write_script (js ''["C:'' @ [BACKSLASH, BACKSLASH] @ js ''app.css"]'')),
          Callback None (Some (js ''undefineda{}b{}'' @ [0x0A]))])\<close>
    by (simp add: inject_eval stringify_eval example_host_def fresh_webview_def js_def BACKSLASH_def)
  have second: \<open>loadStylesheetCSSInWebview example_host
        \<lparr>injectedstylesheets = Some (js ''["C:'' @ [BACKSLASH] @ js ''app.css"]''),
         insertedCSS = [js ''undefineda{}b{}'' @ [0x0A]]\<rparr> (js ''b.css'')
      = (\<lparr>injectedstylesheets = Some (js ''["C:'' @ [BACKSLASH] @ js ''app.css"]''),
          insertedCSS = [js ''undefineda{}b{}'' @ [0x0A]]\<rparr>,
         [ExecuteJavaScript read_script, Callback (Some SyntaxError) None])\<close>
    using p by (simp add: inject_eval example_host_def)
  from first p second show ?thesis by blast
qed

text \<open>
  Where the character after the backslash makes a JSON escape, the registry parses, but
  to another string: \<open>C:\themes.css\<close> is recorded as \<open>C:\<close>, a tab and \<open>hemes.css\<close>, and a
  second injection of the same path is not refused.
\<close>

lemma backslash_path_injected_twice:
  \<open>loadStylesheetCSSInWebview example_host
      (fst (loadStylesheetCSSInWebview example_host fresh_webview
              (js ''C:'' @ [BACKSLASH] @ js ''themes.css'')))
      (js ''C:'' @ [BACKSLASH] @ js ''themes.css'')
    = (\<lparr>injectedstylesheets =
          Some (js ''["C:'' @ [0x09] @ js ''hemes.css","C:'' @ [BACKSLASH] @ js ''themes.css"]''),
        insertedCSS = [js ''undefineda{}b{}'' @ [0x0A], js ''undefineda{}b{}'' @ [0x0A]]\<rparr>,
       [ExecuteJavaScript read_script,
        CreateReadStream (js ''C:'' @ [BACKSLASH] @ js ''themes.css''),
        Minify (js ''undefineda{}b{}'' @ [0x0A]), InsertCSS (js ''undefineda{}b{}'' @ [0x0A]),
        ExecuteJavaScript (write_script
          (js ''["C:'' @ [BACKSLASH] @ js ''themes.css","C:'' @ [BACKSLASH, BACKSLASH]
             @ js ''themes.css"]'')),
        Callback None (Some (js ''undefineda{}b{}'' @ [0x0A]))])\<close>
  by (simp add: inject_eval stringify_eval json_eval join_throws_def example_host_def
      fresh_webview_def js_def BACKSLASH_def)

subsection \<open>formatDuration\<close>


subsection \<open>didScrollIntoViewport\<close>

lemma round_double_sub_one:
  assumes "1 \<le> i" "i \<le> 2 ^ 32"
  shows "number_sub (Num (of_int i)) (Num 1) = Num (of_int (i - 1))"
proof -
  have "\<bar>i - 1\<bar> < (2 :: int) ^ 53"
    using assms by simp
  then show ?thesis
    using round_double_int [of "i - 1"] by simp
qed

lemma targetIndex_defaults:
  assumes "L < 2 ^ 32"
  shows "targetIndex L (Num (3 / 4)) (Num (of_nat L)) = Num (of_int (int ((3 * L) div 4)))"
proof -
  have b: "\<bar>int L\<bar> < 2 ^ 53" "\<bar>int (3 * L)\<bar> < 2 ^ 53"
    using assms by simp_all
  have "number_sub (Num 1) (Num (3 / 4)) = Num (1 / 4)"
    using round_double_quarters [of 1] by simp
  moreover have "number_mul (Num (1 / 4)) (Num (of_nat L)) = Num (of_int (int L) / 4)"
    using round_double_quarters [OF b(1)] by simp
  moreover have "number_sub (Num (of_nat L)) (Num (of_int (int L) / 4)) = Num (of_int (int (3 * L)) / 4)"
  proof -
    have e: "(of_nat L :: rat) - of_int (int L) / 4 = of_int (int (3 * L)) / 4"
      by simp
    show ?thesis
      unfolding number_sub.simps e by (rule round_double_quarters [OF b(2)])
  qed
  moreover have "\<lfloor>(of_int (int (3 * L)) :: rat) / 4\<rfloor> = int (3 * L) div 4"
    using floor_divide_of_int_eq [of "int (3 * L)" 4, where ?'a = rat] by simp
  ultimately show ?thesis
    by (simp add: targetIndex_def zdiv_int del: of_nat_mult)
qed

lemma targetIndex_10: "targetIndex 10 (Num (3 / 4)) (Num 10) = Num 7"
  using targetIndex_defaults [of 10] by simp

lemma didScrollIntoViewport_at:
  assumes t: "targetIndex (length elementList) t f = Num (of_int i)"
    and i: "1 \<le> i" "i \<le> int (length elementList)"
    and len: "length elementList < 2 ^ 32"
  shows "didScrollIntoViewport h elementList (Some t) (Some f)
           = Inr (Some (box_top (elementList ! nat (i - 1)) \<le> h))"
proof -
  have "int (length elementList) < 2 ^ 32"
    using len by simp
  with i(2) have "i \<le> 2 ^ 32"
    by linarith
  then have s: "number_sub (Num (of_int i)) (Num 1) = Num (of_int (i - 1))"
    using i(1) by (intro round_double_sub_one)
  have "(of_int (i - 1) :: rat) < of_int (int (length elementList))"
    using i(2) by (simp only: of_int_less_iff)
  then have "(of_int (i - 1) :: rat) < of_nat (length elementList)"
    by simp
  moreover have "(0 :: rat) \<le> of_int (i - 1)"
    using i(1) by (simp only: of_int_0_le_iff)
  moreover have "elementList \<noteq> []"
    using i by auto
  ultimately show ?thesis
    using t s by (simp add: didScrollIntoViewport_def element_at_def)
qed

lemma didScrollIntoViewport_defaults:
  "didScrollIntoViewport h elementList None None
     = didScrollIntoViewport h elementList (Some (Num (3 / 4))) (Some (Num (of_nat (length elementList))))"
  by (simp add: didScrollIntoViewport_def)

text \<open>
  C6, as the claim states it, fails: for a list of ten elements, threshold \<open>0.75\<close> and
  fixed count 10 the ceiling is 8, but the function takes the floor, 7, and looks at the
  seventh element. Here the seventh element is in view and the eighth is not, and the
  answer is \<open>true\<close>.
\<close>

theorem didScrollIntoViewport_ceiling_counterexample:
  "\<lceil>(10 :: rat) - (1 - 3 / 4) * 10\<rceil> = 8
   \<and> targetIndex 10 (Num (3 / 4)) (Num 10) = Num 7
   \<and> targetIndex 10 (Num (3 / 4)) (Num 10) \<noteq> Num 8
   \<and> didScrollIntoViewport 50
        [\<lparr>box_top = 0\<rparr>, \<lparr>box_top = 0\<rparr>, \<lparr>box_top = 0\<rparr>, \<lparr>box_top = 0\<rparr>, \<lparr>box_top = 0\<rparr>,
         \<lparr>box_top = 0\<rparr>, \<lparr>box_top = 0\<rparr>, \<lparr>box_top = 100\<rparr>, \<lparr>box_top = 100\<rparr>,
         \<lparr>box_top = 100\<rparr>] (Some (Num (3 / 4))) (Some (Num 10)) = Inr (Some True)"
proof -
  have "\<lceil>(10 :: rat) - (1 - 3 / 4) * 10\<rceil> = 8"
    by (simp add: ceiling_eq_iff)
  moreover have "targetIndex 10 (Num (3 / 4)) (Num 10) \<noteq> Num 8"
    by (simp add: targetIndex_10)
  moreover have "didScrollIntoViewport 50
        [\<lparr>box_top = 0\<rparr>, \<lparr>box_top = 0\<rparr>, \<lparr>box_top = 0\<rparr>, \<lparr>box_top = 0\<rparr>, \<lparr>box_top = 0\<rparr>,
         \<lparr>box_top = 0\<rparr>, \<lparr>box_top = 0\<rparr>, \<lparr>box_top = 100\<rparr>, \<lparr>box_top = 100\<rparr>,
         \<lparr>box_top = 100\<rparr>] (Some (Num (3 / 4))) (Some (Num 10)) = Inr (Some True)"
    (is "didScrollIntoViewport 50 ?list _ _ = _")
  proof -
    have len: "length ?list = 10"
      by simp
    have "targetIndex (length ?list) (Num (3 / 4)) (Num 10) = Num (of_int 7)"
      unfolding len using targetIndex_10 by simp
    from didScrollIntoViewport_at [OF this, of 50] show ?thesis
      by simp
  qed
  ultimately show ?thesis using targetIndex_10 by blast
qed

text \<open>
  C6, amended. For every non-empty element list of length \<open>L\<close> (below \<open>2 ^ 32\<close>, as the
  length of every JavaScript list is), threshold \<open>t\<close> and fixed count \<open>f\<close>, the target
  index is the floor of \<open>L - (1 - t) * f\<close>, computed in the double arithmetic of
  JavaScript; when that index is one of \<open>1 .. L\<close>, the function reports whether the top
  edge of the element at that 1-indexed position is within the viewport height. With
  \<open>L = 10\<close>, \<open>t = 0.75\<close> and \<open>f = 10\<close> the target index is 7.
\<close>

theorem didScrollIntoViewport_floor:
  assumes "elementList \<noteq> []" and "length elementList < 2 ^ 32"
  shows "(number_sub (Num (of_nat (length elementList))) (number_mul (number_sub (Num 1) t) f) = Num x
          \<longrightarrow> targetIndex (length elementList) t f = Num (of_int \<lfloor>x\<rfloor>)
            \<and> (1 \<le> \<lfloor>x\<rfloor> \<and> \<lfloor>x\<rfloor> \<le> int (length elementList)
               \<longrightarrow> didScrollIntoViewport h elementList (Some t) (Some f)
                     = Inr (Some (box_top (elementList ! nat (\<lfloor>x\<rfloor> - 1)) \<le> h))))
       \<and> targetIndex 10 (Num (3 / 4)) (Num 10) = Num 7"
proof -
  have "didScrollIntoViewport h elementList (Some t) (Some f)
          = Inr (Some (box_top (elementList ! nat (\<lfloor>x\<rfloor> - 1)) \<le> h))"
    if x: "number_sub (Num (of_nat (length elementList))) (number_mul (number_sub (Num 1) t) f) = Num x"
      and i: "1 \<le> \<lfloor>x\<rfloor>" "\<lfloor>x\<rfloor> \<le> int (length elementList)"
  proof -
    have "targetIndex (length elementList) t f = Num (of_int \<lfloor>x\<rfloor>)"
      using x by (simp add: targetIndex_def)
    then show ?thesis
      using i assms(2) by (rule didScrollIntoViewport_at)
  qed
  then show ?thesis
    using targetIndex_10 by (auto simp: targetIndex_def)
qed

text \<open>
  The threshold \<open>0.44\<close> is the double \<open>7926335344172073 / 2 ^ 54\<close>. With 25 elements the
  doubles give \<open>10.999999999999998\<close> where exact arithmetic gives 11, so the target index
  is 10 and the tenth element is the one looked at.
\<close>

lemma threshold_044: "round_double (11 / 25) = Num (7926335344172073 / 18014398509481984)"
  by code_simp

lemma one_minus_threshold_044:
  "number_sub (Num 1) (Num (7926335344172073 / 18014398509481984))
     = Num (1261007895663739 / 2251799813685248)"
  by code_simp

lemma times_25:
  "number_mul (Num (1261007895663739 / 2251799813685248)) (Num 25)
     = Num (7881299347898369 / 562949953421312)"
  by code_simp

lemma from_25:
  "number_sub (Num 25) (Num (7881299347898369 / 562949953421312))
     = Num (6192449487634431 / 562949953421312)"
  by code_simp

lemma targetIndex_25:
  "number_sub (Num 25) (number_mul (number_sub (Num 1) (Num (7926335344172073 / 18014398509481984))) (Num 25))
     = Num (6192449487634431 / 562949953421312)"
  by (simp only: one_minus_threshold_044 times_25 from_25)

theorem didScrollIntoViewport_floor_witness:
  "targetIndex 25 (Num (7926335344172073 / 18014398509481984)) (Num 25) = Num 10
   \<and> didScrollIntoViewport 50 (replicate 9 \<lparr>box_top = 60\<rparr> @ [\<lparr>box_top = 40\<rparr>] @ replicate 15 \<lparr>box_top = 60\<rparr>)
        (Some (Num (7926335344172073 / 18014398509481984))) (Some (Num 25)) = Inr (Some True)"
proof -
  let ?list = "replicate 9 \<lparr>box_top = 60\<rparr> @ [\<lparr>box_top = 40\<rparr>] @ replicate 15 \<lparr>box_top = 60\<rparr>"
  let ?x = "(6192449487634431 :: rat) / 562949953421312"
  have l: "?list \<noteq> []" "length ?list < 2 ^ 32"
    by simp_all
  have len: "length ?list = 25"
    by simp
  have f: "\<lfloor>?x\<rfloor> = 10"
    by (simp add: floor_eq_iff)
  have n: "box_top (?list ! nat (10 - 1)) = 40"
    by (simp add: nth_append)
  note T = didScrollIntoViewport_floor [OF l, where t = "Num (7926335344172073 / 18014398509481984)"
      and f = "Num 25" and x = ?x and h = 50, unfolded len of_nat_numeral f n]
  from T targetIndex_25 show ?thesis
    by (simp add: f)
qed

text \<open>
  C9. With the default threshold and the default fixed count, a list of one element
  gives the target index \<open>floor(0.75) = 0\<close>, the lookup at index \<open>-1\<close> finds nothing, and
  the call of \<^verbatim>\<open>getBoundingClientRect\<close> on \<open>undefined\<close> throws.
\<close>

theorem didScrollIntoViewport_single_element_throws:
  "number_sub (targetIndex 1 (Num (3 / 4)) (Num 1)) (Num 1) = Num (- 1)
   \<and> didScrollIntoViewport h [e] None None = Inl TypeError"
proof -
  have "targetIndex 1 (Num (3 / 4)) (Num 1) = Num 0"
    using targetIndex_defaults [of 1] by simp
  moreover have "number_sub (Num 0) (Num 1) = Num (- 1)"
    using round_double_int [of "- 1"] by simp
  ultimately show ?thesis
    by (simp add: didScrollIntoViewport_def element_at_def)
qed

text \<open>From two elements on, the defaults do pick an element of the list.\<close>

lemma didScrollIntoViewport_defaults_from_two:
  assumes "2 \<le> length elementList" "length elementList < 2 ^ 32"
  shows "\<exists>b. didScrollIntoViewport h elementList None None = Inr (Some b)"
proof -
  let ?L = "length elementList"
  let ?i = "int ((3 * ?L) div 4)"
  have i: "1 \<le> ?i" "?i \<le> int ?L"
    using assms by simp_all
  show ?thesis
    unfolding didScrollIntoViewport_defaults
    using didScrollIntoViewport_at [OF targetIndex_defaults [OF assms(2)] i assms(2)] by simp
qed

subsection \<open>remove\<close>

text \<open>
  C10. \<open>remove\<close> only schedules a timer. Whenever that timer fires, on whatever the
  document is by then, no error is raised; if the element has no parent the document is
  left as it is; if it has one, the element ends up without a parent and outside that
  parent's children, and every other node keeps its parent and stays in exactly the
  child lists it was in.
\<close>

theorem remove_safe:
  assumes "timers w2 (nextTimer w) = timers (remove w element delayArg) (nextTimer w)"
  shows "\<exists>w3. fireTimer w2 (nextTimer w) = (None, w3)
      \<and> timers w3 (nextTimer w) = None
      \<and> (parentNode (document w2) element = None \<longrightarrow> document w3 = document w2)
      \<and> (\<forall>parent. parentNode (document w2) element = Some parent \<longrightarrow>
            parentNode (document w3) element = None
          \<and> element \<notin> set (childNodes (document w3) parent)
          \<and> (\<forall>n. n \<noteq> element \<longrightarrow>
                parentNode (document w3) n = parentNode (document w2) n
              \<and> (\<forall>p. n \<in> set (childNodes (document w3) p)
                      \<longleftrightarrow> n \<in> set (childNodes (document w2) p))))"
proof -
  obtain delay where t: "timers w2 (nextTimer w) = Some (delay, element)"
    using assms by (simp add: remove_def setTimeout_def)
  show ?thesis
  proof (cases "parentNode (document w2) element")
    case None
    then show ?thesis using t
      by (simp add: fireTimer_def remove_deferred_def clearTimeout_def)
  next
    case (Some parent)
    then show ?thesis using t
      by (auto simp: fireTimer_def remove_deferred_def clearTimeout_def removeChild_def)
  qed
qed

theorem remove_safe_witness:
  "fst (fireTimer (remove example_window 1 None) 0) = None
   \<and> parentNode (document (snd (fireTimer (remove example_window 1 None) 0))) 1 = None
   \<and> childNodes (document (snd (fireTimer (remove example_window 1 None) 0))) 0 = [2]
   \<and> parentNode (document (snd (fireTimer (remove example_window 1 None) 0))) 2 = Some 0
   \<and> fst (fireTimer (remove example_window 0 (Some 250)) 0) = None
   \<and> document (snd (fireTimer (remove example_window 0 (Some 250)) 0)) = example_tree"
proof -
  have n: "nextTimer example_window = 0"
    by (simp add: example_window_def)
  have d: "document (remove example_window e a) = example_tree" for e a
    by (simp add: remove_def setTimeout_def example_window_def)
  have p: "parentNode example_tree 1 = Some 0" "parentNode example_tree 0 = None"
    "parentNode example_tree 2 = Some 0"
    by (simp_all add: example_tree_def)
  obtain w3 where w3: "fireTimer (remove example_window 1 None) 0 = (None, w3)"
    "parentNode (document w3) 1 = None" "1 \<notin> set (childNodes (document w3) 0)"
    "parentNode (document w3) 2 = Some 0"
    "2 \<in> set (childNodes (document w3) 0)"
    using remove_safe [of "remove example_window 1 None" example_window 1 None] n d p
    by (auto simp: example_tree_def)
  have c: "childNodes (document w3) 0 = [2]"
    using w3(1)
    by (auto simp: fireTimer_def remove_def setTimeout_def example_window_def example_tree_def
        remove_deferred_def removeChild_def clearTimeout_def)
  obtain w4 where w4: "fireTimer (remove example_window 0 (Some 250)) 0 = (None, w4)"
    "document w4 = example_tree"
    using remove_safe [of "remove example_window 0 (Some 250)" example_window 0 "Some 250"] n d p
    by auto
  from w3 c w4 show ?thesis by simp
qed

end
